theory Spec2Isabelle
  imports Main "HOL-Library.Product_Lexorder" "HOL-Library.Multiset"
begin

section \<open>The ledger entry store (apps/ledger/models.py)\<close>

text \<open>
  Amounts are \<open>DecimalField(decimal_places=2)\<close> columns; Decimal addition and
  subtraction are exact, so an amount is modelled as an \<open>int\<close> counting hundredths.
  A \<open>DateField\<close> is the ordinal of its day, a \<open>DateTimeField\<close> the number of
  microseconds of its instant, both \<open>int\<close>. A company is the primary key of its row.
\<close>

datatype party_type = CustomerParty | SupplierParty

datatype entry_type = InvoiceEntry | PaymentEntry | PurchaseEntry | AdjustmentEntry

text \<open>The content type of a referenced business object: the model class it is a row of.\<close>

datatype model_class = InvoiceModel | PaymentModel | OtherModel nat

record ledger_entry =
  entry_id :: nat
  company :: nat
  party_type :: party_type
  party_id :: nat
  entry_type :: entry_type
  debit :: int
  credit :: int
  running_balance :: int
  reference_type :: "model_class option"
  reference_id :: "nat option"
  description :: string
  transaction_date :: int
  created_at :: int

text \<open>
  The table is the list of its rows in insertion order. Where the database leaves the
  order of rows with equal sort keys open, the model keeps the table's order (the sorts
  below are stable).
\<close>

type_synonym ledger_table = "ledger_entry list"

datatype error = IntegrityError | InvalidOperation | ValidationError | DoesNotExist

text \<open>\<open>filter(company=..., party_type=..., party_id=...)\<close>\<close>

definition filter_party :: "ledger_table \<Rightarrow> nat \<Rightarrow> party_type \<Rightarrow> nat \<Rightarrow> ledger_entry list" where
  "filter_party tbl c pt pid =
     filter (\<lambda>e. company e = c \<and> party_type e = pt \<and> party_id e = pid) tbl"

text \<open>\<open>order_by('transaction_date', 'created_at')\<close>\<close>

definition order_by_date_created :: "ledger_entry list \<Rightarrow> ledger_entry list" where
  "order_by_date_created es = sort_key (\<lambda>e. (transaction_date e, created_at e)) es"

text \<open>\<open>order_by('-transaction_date', '-created_at')\<close>\<close>

definition order_by_date_created_desc :: "ledger_entry list \<Rightarrow> ledger_entry list" where
  "order_by_date_created_desc es =
     sort_key (\<lambda>e. (- transaction_date e, - created_at e)) es"

text \<open>\<open>QuerySet.first()\<close>: the first row, or None.\<close>

definition qs_first :: "'a list \<Rightarrow> 'a option" where
  "qs_first xs = (case xs of [] \<Rightarrow> None | x # _ \<Rightarrow> Some x)"

text \<open>
  The constraint \<open>unique_reference_entry\<close> of \<open>LedgerEntry.Meta\<close>: unique
  (reference_type, reference_id, entry_type) among the rows whose reference_type is not
  null. SQL compares a null reference_id equal to nothing.
\<close>

definition unique_reference_entry_violated ::
  "ledger_table \<Rightarrow> model_class option \<Rightarrow> nat option \<Rightarrow> entry_type \<Rightarrow> bool" where
  "unique_reference_entry_violated tbl rt rid et =
     (rt \<noteq> None \<and> rid \<noteq> None \<and>
      list_ex (\<lambda>e. reference_type e = rt \<and> reference_id e = rid \<and> entry_type e = et) tbl)"

text \<open>The primary key the database gives a new row: one no row of the table has.\<close>

definition new_pk :: "ledger_table \<Rightarrow> nat" where
  "new_pk tbl = Suc (fold max (map entry_id tbl) 0)"

section \<open>LedgerService (apps/ledger/services.py)\<close>

text \<open>
  \<open>LedgerService._create_entry\<close>, run alone (one transaction at a time). \<open>now\<close>
  is the clock reading that \<open>auto_now_add\<close> stores in created_at. A reference object
  is a saved model instance, given by its class and primary key. The result is the table
  after the call and either the error raised (the transaction is rolled back: the table
  is the one before the call) or the entry created. \<open>LedgerEntry.objects.create\<close>
  inserts the row; it runs neither \<open>LedgerEntry.clean\<close> nor the field validators,
  which only \<open>full_clean\<close> runs and nothing in the service calls.
\<close>

definition create_entry ::
  "ledger_table \<Rightarrow> int \<Rightarrow> nat \<Rightarrow> party_type \<Rightarrow> nat \<Rightarrow> entry_type \<Rightarrow> int \<Rightarrow> int \<Rightarrow> int \<Rightarrow>
   string \<Rightarrow> (model_class \<times> nat) option \<Rightarrow> ledger_table \<times> (error + ledger_entry)" where
  "create_entry tbl now c pt pid et dr cr tdate descr reference_object =
     (let last_entry = qs_first (order_by_date_created_desc (filter_party tbl c pt pid));
          previous_balance = (case last_entry of Some e \<Rightarrow> running_balance e | None \<Rightarrow> 0);
          rb = previous_balance + dr - cr;
          rt = (case reference_object of Some (m, k) \<Rightarrow> Some m | None \<Rightarrow> None);
          rid = (case reference_object of Some (m, k) \<Rightarrow> Some k | None \<Rightarrow> None)
      in if unique_reference_entry_violated tbl rt rid et then (tbl, Inl IntegrityError)
         else
           (let entry = \<lparr> entry_id = new_pk tbl, company = c, party_type = pt, party_id = pid,
                          entry_type = et, debit = dr, credit = cr, running_balance = rb,
                          reference_type = rt, reference_id = rid, description = descr,
                          transaction_date = tdate, created_at = now \<rparr>
            in (tbl @ [entry], Inr entry)))"

text \<open>The objects the wrappers read fields of.\<close>

record customer =
  cust_id :: nat
  cust_company :: nat
  cust_name :: string
  cust_is_deleted :: bool

record invoice =
  inv_id :: nat
  inv_company :: nat
  inv_customer :: nat
  inv_number :: string
  inv_date :: int
  inv_status :: string
  inv_total_amount :: int
  inv_is_deleted :: bool

definition create_customer_invoice_entry ::
  "ledger_table \<Rightarrow> int \<Rightarrow> nat \<Rightarrow> customer \<Rightarrow> invoice \<Rightarrow> ledger_table \<times> (error + ledger_entry)" where
  "create_customer_invoice_entry tbl now c cust invoice =
     create_entry tbl now c CustomerParty (cust_id cust) InvoiceEntry (inv_total_amount invoice) 0
       (inv_date invoice) (''Invoice '' @ inv_number invoice)
       (Some (InvoiceModel, inv_id invoice))"

definition create_customer_payment_entry ::
  "ledger_table \<Rightarrow> int \<Rightarrow> nat \<Rightarrow> customer \<Rightarrow> int \<Rightarrow> int \<Rightarrow> string \<Rightarrow> (model_class \<times> nat) option \<Rightarrow>
   ledger_table \<times> (error + ledger_entry)" where
  "create_customer_payment_entry tbl now c cust amount payment_date descr reference_object =
     create_entry tbl now c CustomerParty (cust_id cust) PaymentEntry 0 amount payment_date
       (if descr \<noteq> [] then descr else ''Payment received from '' @ cust_name cust)
       reference_object"

text \<open>A supplier is passed as any object with an id and a name; the same record serves.\<close>

definition create_supplier_purchase_entry ::
  "ledger_table \<Rightarrow> int \<Rightarrow> nat \<Rightarrow> customer \<Rightarrow> int \<Rightarrow> int \<Rightarrow> string \<Rightarrow> (model_class \<times> nat) option \<Rightarrow>
   ledger_table \<times> (error + ledger_entry)" where
  "create_supplier_purchase_entry tbl now c supplier amount purchase_date descr reference_object =
     create_entry tbl now c SupplierParty (cust_id supplier) PurchaseEntry 0 amount purchase_date
       (if descr \<noteq> [] then descr else ''Purchase from '' @ cust_name supplier)
       reference_object"

definition create_supplier_payment_entry ::
  "ledger_table \<Rightarrow> int \<Rightarrow> nat \<Rightarrow> customer \<Rightarrow> int \<Rightarrow> int \<Rightarrow> string \<Rightarrow> (model_class \<times> nat) option \<Rightarrow>
   ledger_table \<times> (error + ledger_entry)" where
  "create_supplier_payment_entry tbl now c supplier amount payment_date descr reference_object =
     create_entry tbl now c SupplierParty (cust_id supplier) PaymentEntry amount 0 payment_date
       (if descr \<noteq> [] then descr else ''Payment to '' @ cust_name supplier)
       reference_object"

definition create_adjustment_entry ::
  "ledger_table \<Rightarrow> int \<Rightarrow> nat \<Rightarrow> party_type \<Rightarrow> nat \<Rightarrow> int \<Rightarrow> bool \<Rightarrow> int \<Rightarrow> string \<Rightarrow>
   ledger_table \<times> (error + ledger_entry)" where
  "create_adjustment_entry tbl now c pt pid amount is_debit adjustment_date descr =
     (let dr = (if is_debit then amount else 0);
          cr = (if is_debit then 0 else amount)
      in create_entry tbl now c pt pid AdjustmentEntry dr cr adjustment_date descr None)"

text \<open>\<open>LedgerService.get_customer_outstanding\<close>\<close>

definition get_customer_outstanding :: "ledger_table \<Rightarrow> nat \<Rightarrow> nat \<Rightarrow> int" where
  "get_customer_outstanding tbl c customer_id =
     (case qs_first (order_by_date_created_desc (filter_party tbl c CustomerParty customer_id)) of
        Some last_entry \<Rightarrow> running_balance last_entry
      | None \<Rightarrow> 0)"

text \<open>
  \<open>LedgerEntry.clean\<close> (apps/ledger/models.py): the debit-xor-credit rule. It is
  run by \<open>full_clean\<close> only.
\<close>

definition LedgerEntry_clean :: "ledger_entry \<Rightarrow> error + unit" where
  "LedgerEntry_clean e =
     (if debit e > 0 \<and> credit e > 0 then Inl ValidationError
      else if debit e = 0 \<and> credit e = 0 then Inl ValidationError
      else Inr ())"

text \<open>
  \<open>LedgerService.get_all_outstanding_customers\<close>. The Customer table is the list of
  its rows; \<open>Customer.objects\<close> is the manager that leaves soft-deleted rows out.
  The primary key is unique, so \<open>get\<close> finds at most one row.
\<close>

definition Customer_objects_get :: "customer list \<Rightarrow> nat \<Rightarrow> nat \<Rightarrow> error + customer" where
  "Customer_objects_get customers pid c =
     (case filter (\<lambda>cu. \<not> cust_is_deleted cu \<and> cust_id cu = pid \<and> cust_company cu = c) customers of
        [] \<Rightarrow> Inl DoesNotExist
      | cu # _ \<Rightarrow> Inr cu)"

record outstanding_row =
  customer_id :: nat
  customer_name :: string
  balance :: int

text \<open>
  One group of \<open>values('party_id').annotate(latest_date=Max(...), latest_created=Max(...))\<close>:
  the party id with the two maxima, each taken over the party's rows on its own.
\<close>

definition latest_entries :: "ledger_table \<Rightarrow> nat \<Rightarrow> (nat \<times> int \<times> int) list" where
  "latest_entries tbl c =
     (let rows = filter (\<lambda>e. company e = c \<and> party_type e = CustomerParty) tbl
      in map (\<lambda>pid.
               (let es = filter (\<lambda>e. party_id e = pid) rows
                in (pid, Max (set (map transaction_date es)), Max (set (map created_at es)))))
             (remdups (map party_id rows)))"

fun outstanding_loop ::
  "ledger_table \<Rightarrow> customer list \<Rightarrow> nat \<Rightarrow> (nat \<times> int \<times> int) list \<Rightarrow> outstanding_row list \<Rightarrow>
   outstanding_row list" where
  "outstanding_loop tbl customers c [] results = results"
| "outstanding_loop tbl customers c ((pid, latest_date, latest_created) # infos) results =
     (let last_entry =
            qs_first (filter (\<lambda>e. company e = c \<and> party_type e = CustomerParty \<and> party_id e = pid \<and>
                                   transaction_date e = latest_date \<and> created_at e = latest_created) tbl)
      in case last_entry of
           None \<Rightarrow> outstanding_loop tbl customers c infos results
         | Some le \<Rightarrow>
             if running_balance le > 0 then
               (case Customer_objects_get customers pid c of
                  Inr cu \<Rightarrow>
                    outstanding_loop tbl customers c infos
                      (results @ [\<lparr> customer_id = cust_id cu, customer_name = cust_name cu,
                                    balance = running_balance le \<rparr>])
                | Inl _ \<Rightarrow> outstanding_loop tbl customers c infos results)
             else outstanding_loop tbl customers c infos results)"

text \<open>
  \<open>sorted(results, key=lambda x: x['balance'], reverse=True)\<close>: a stable sort, rows of
  equal balance staying in their order.
\<close>

definition get_all_outstanding_customers ::
  "ledger_table \<Rightarrow> customer list \<Rightarrow> nat \<Rightarrow> outstanding_row list" where
  "get_all_outstanding_customers tbl customers c =
     sort_key (\<lambda>r. - balance r) (outstanding_loop tbl customers c (latest_entries tbl c) [])"

text \<open>
  \<open>LedgerService.recalculate_party_balance\<close>. \<open>entry.save(update_fields=['running_balance'])\<close>
  updates the row with the entry's primary key. The result is the table after the call,
  the primary keys saved (in order) and the balance returned.
\<close>

definition save_running_balance :: "ledger_table \<Rightarrow> nat \<Rightarrow> int \<Rightarrow> ledger_table" where
  "save_running_balance tbl pk v =
     map (\<lambda>e. if entry_id e = pk then e\<lparr>running_balance := v\<rparr> else e) tbl"

fun recalculate_loop ::
  "int \<Rightarrow> ledger_entry list \<Rightarrow> ledger_table \<Rightarrow> nat list \<Rightarrow> ledger_table \<times> nat list \<times> int" where
  "recalculate_loop rb [] tbl saved = (tbl, saved, rb)"
| "recalculate_loop rb (entry # entries) tbl saved =
     (let rb' = rb + debit entry - credit entry
      in if running_balance entry \<noteq> rb'
         then recalculate_loop rb' entries (save_running_balance tbl (entry_id entry) rb')
                (saved @ [entry_id entry])
         else recalculate_loop rb' entries tbl saved)"

definition recalculate_party_balance ::
  "ledger_table \<Rightarrow> nat \<Rightarrow> party_type \<Rightarrow> nat \<Rightarrow> ledger_table \<times> nat list \<times> int" where
  "recalculate_party_balance tbl c pt pid =
     recalculate_loop 0 (order_by_date_created (filter_party tbl c pt pid)) tbl []"

section \<open>The audit command (apps/ledger/management/commands/audit_ledger.py)\<close>

text \<open>
  The loop of \<open>_audit_party\<close> over one party's entries in (transaction_date, created_at)
  order: whether some entry's running_balance differs from the expected balance.
\<close>

fun audit_loop :: "int \<Rightarrow> ledger_entry list \<Rightarrow> bool \<Rightarrow> bool" where
  "audit_loop expected_balance [] has_error = has_error"
| "audit_loop expected_balance (entry # entries) has_error =
     (let expected_balance' = expected_balance + (debit entry - credit entry)
      in if running_balance entry \<noteq> expected_balance'
         then audit_loop expected_balance' entries True
         else audit_loop expected_balance' entries has_error)"

definition audit_party_has_error :: "ledger_table \<Rightarrow> nat \<Rightarrow> party_type \<Rightarrow> nat \<Rightarrow> bool" where
  "audit_party_has_error tbl c pt pid =
     audit_loop 0 (order_by_date_created (filter_party tbl c pt pid)) False"

section \<open>Payments (apps/payments/models.py, apps/payments/views.py)\<close>

record payment =
  pay_id :: nat
  pay_company :: nat
  pay_customer :: nat
  pay_number :: string
  pay_date :: int
  pay_amount :: int

text \<open>A PaymentAllocation row: the primary keys of its payment and invoice, and the amount.\<close>

record payment_allocation =
  alloc_payment :: nat
  alloc_invoice :: nat
  alloc_amount :: int

record database =
  ledger_entries :: ledger_table
  invoices :: "invoice list"
  payments :: "payment list"
  allocations :: "payment_allocation list"

text \<open>\<open>aggregate(total=Sum('amount'))['total'] or Decimal('0.00')\<close> over an invoice's allocations\<close>

definition invoice_paid :: "payment_allocation list \<Rightarrow> nat \<Rightarrow> int" where
  "invoice_paid allocs iid =
     sum_list (map alloc_amount (filter (\<lambda>a. alloc_invoice a = iid) allocs))"

text \<open>\<open>Payment.allocated_amount\<close>\<close>

definition allocated_amount :: "payment_allocation list \<Rightarrow> nat \<Rightarrow> int" where
  "allocated_amount allocs pk =
     sum_list (map alloc_amount (filter (\<lambda>a. alloc_payment a = pk) allocs))"

text \<open>
  \<open>PaymentAllocation.clean\<close>, for an allocation not yet saved (its pk is None, so
  \<open>exclude(pk=self.pk)\<close> excludes no row). It is run by \<open>full_clean\<close> only.
\<close>

definition PaymentAllocation_clean ::
  "payment_allocation list \<Rightarrow> payment \<Rightarrow> invoice \<Rightarrow> int \<Rightarrow> error + unit" where
  "PaymentAllocation_clean allocs p invoice amount =
     (if pay_customer p \<noteq> inv_customer invoice then Inl ValidationError
      else if pay_company p \<noteq> inv_company invoice then Inl ValidationError
      else
        (let total_allocated = allocated_amount allocs (pay_id p)
         in if total_allocated + amount > pay_amount p then Inl ValidationError
            else
              (let invoice_paid' = invoice_paid allocs (inv_id invoice);
                   invoice_outstanding = inv_total_amount invoice - invoice_paid'
               in if amount > invoice_outstanding then Inl ValidationError else Inr ())))"

text \<open>
  \<open>PaymentAllocation.objects.create\<close>: the insert, under the constraint
  \<open>unique_payment_invoice_allocation\<close>. It runs neither \<open>clean\<close> nor the validators.
\<close>

definition allocation_create ::
  "payment_allocation list \<Rightarrow> nat \<Rightarrow> nat \<Rightarrow> int \<Rightarrow> error + payment_allocation list" where
  "allocation_create allocs pk iid amount =
     (if list_ex (\<lambda>a. alloc_payment a = pk \<and> alloc_invoice a = iid) allocs
      then Inl IntegrityError
      else Inr (allocs @ [\<lparr> alloc_payment = pk, alloc_invoice = iid, alloc_amount = amount \<rparr>]))"

text \<open>
  The cleaned form of \<open>PaymentCreateView.form_valid\<close>. \<open>pf_company\<close> is
  \<open>request.user.company\<close>; \<open>pf_payment_number\<close> is the number \<open>Payment.save\<close>
  generates and \<open>pf_method_display\<close> the payment method's label (neither computation is
  modelled); \<open>pf_now\<close> is the clock reading the ledger entry gets.
\<close>

record payment_form =
  pf_company :: nat
  pf_customer :: customer
  pf_invoice :: "invoice option"
  pf_payment_date :: int
  pf_amount :: int
  pf_payment_number :: string
  pf_method_display :: string
  pf_now :: int

text \<open>
  One item of \<open>request.POST\<close> whose key starts with \<open>allocation_\<close> and whose value is
  not empty, after parsing: \<open>mi_invoice_id\<close> is \<open>int(key.split('_')[1])\<close>, None when it
  raises ValueError; \<open>mi_amount\<close> is \<open>Decimal(value)\<close>, None when it raises
  decimal.InvalidOperation (an ArithmeticError, which the loop does not catch).
\<close>

record manual_input =
  mi_invoice_id :: "int option"
  mi_amount :: "int option"

text \<open>\<open>Invoice.objects.get(id=..., company=..., customer=...)\<close>, soft-deleted rows left out\<close>

definition Invoice_objects_get :: "invoice list \<Rightarrow> int \<Rightarrow> nat \<Rightarrow> nat \<Rightarrow> error + invoice" where
  "Invoice_objects_get invs iid c cust =
     (case filter (\<lambda>i. \<not> inv_is_deleted i \<and> int (inv_id i) = iid \<and> inv_company i = c \<and>
                        inv_customer i = cust) invs of
        [] \<Rightarrow> Inl DoesNotExist
      | i # _ \<Rightarrow> Inr i)"

text \<open>Step 2, the invoice selected in the form. The state is the table and \<open>allocations_made\<close>.\<close>

definition allocate_selected ::
  "payment \<Rightarrow> invoice option \<Rightarrow> payment_allocation list \<Rightarrow> error + (payment_allocation list \<times> bool)" where
  "allocate_selected p selected_invoice allocs =
     (case selected_invoice of
        None \<Rightarrow> Inr (allocs, False)
      | Some si \<Rightarrow>
          (let paid = invoice_paid allocs (inv_id si);
               outstanding = inv_total_amount si - paid
           in if outstanding > 0 then
                (let to_allocate = min (pay_amount p) outstanding
                 in case allocation_create allocs (pay_id p) (inv_id si) to_allocate of
                      Inl err \<Rightarrow> Inl err
                    | Inr allocs' \<Rightarrow> Inr (allocs', True))
              else Inr (allocs, False)))"

text \<open>Step 2, the manual inputs, in the order of \<open>request.POST.items()\<close>.\<close>

fun allocate_manual ::
  "invoice list \<Rightarrow> payment \<Rightarrow> invoice option \<Rightarrow> manual_input list \<Rightarrow>
   payment_allocation list \<times> bool \<Rightarrow> error + (payment_allocation list \<times> bool)" where
  "allocate_manual invs p selected_invoice [] st = Inr st"
| "allocate_manual invs p selected_invoice (m # ms) (allocs, allocations_made) =
     (case mi_invoice_id m of
        None \<Rightarrow> allocate_manual invs p selected_invoice ms (allocs, allocations_made)
      | Some invoice_id \<Rightarrow>
          if (case selected_invoice of Some si \<Rightarrow> invoice_id = int (inv_id si) | None \<Rightarrow> False)
          then allocate_manual invs p selected_invoice ms (allocs, allocations_made)
          else
            (case mi_amount m of
               None \<Rightarrow> Inl InvalidOperation
             | Some amount \<Rightarrow>
                 if amount > 0 then
                   (case Invoice_objects_get invs invoice_id (pay_company p) (pay_customer p) of
                      Inl _ \<Rightarrow> allocate_manual invs p selected_invoice ms (allocs, allocations_made)
                    | Inr invoice \<Rightarrow>
                        (case allocation_create allocs (pay_id p) (inv_id invoice) amount of
                           Inl err \<Rightarrow> Inl err
                         | Inr allocs' \<Rightarrow>
                             allocate_manual invs p selected_invoice ms (allocs', True)))
                 else allocate_manual invs p selected_invoice ms (allocs, allocations_made)))"

text \<open>
  Step 3, the FIFO loop over \<open>unpaid_invoices\<close>, with \<open>remaining_payment\<close> and the
  allocation table as state.
\<close>

fun allocate_fifo ::
  "payment \<Rightarrow> invoice list \<Rightarrow> int \<Rightarrow> payment_allocation list \<Rightarrow> error + payment_allocation list" where
  "allocate_fifo p [] remaining_payment allocs = Inr allocs"
| "allocate_fifo p (invoice # rest) remaining_payment allocs =
     (if remaining_payment \<le> 0 then Inr allocs
      else
        (let already_paid = invoice_paid allocs (inv_id invoice);
             outstanding = inv_total_amount invoice - already_paid
         in if outstanding \<le> 0 then allocate_fifo p rest remaining_payment allocs
            else
              (let to_allocate = min remaining_payment outstanding
               in case allocation_create allocs (pay_id p) (inv_id invoice) to_allocate of
                    Inl err \<Rightarrow> Inl err
                  | Inr allocs' \<Rightarrow> allocate_fifo p rest (remaining_payment - to_allocate) allocs')))"

text \<open>
  \<open>Invoice.objects.filter(company=..., customer=..., status__in=['sent', 'partial']).order_by('date')\<close>
\<close>

definition unpaid_invoices :: "invoice list \<Rightarrow> nat \<Rightarrow> nat \<Rightarrow> invoice list" where
  "unpaid_invoices invs c cust =
     sort_key inv_date
       (filter (\<lambda>i. \<not> inv_is_deleted i \<and> inv_company i = c \<and> inv_customer i = cust \<and>
                     (inv_status i = ''sent'' \<or> inv_status i = ''partial'')) invs)"

text \<open>
  Step 5: for every allocation of the payment, the invoice is read from the table and
  marked paid when its allocations reach its total.
\<close>

definition mark_paid :: "invoice list \<Rightarrow> nat \<Rightarrow> invoice list" where
  "mark_paid invs iid = map (\<lambda>i. if inv_id i = iid then i\<lparr>inv_status := ''paid''\<rparr> else i) invs"

fun update_statuses :: "payment_allocation list \<Rightarrow> payment_allocation list \<Rightarrow> invoice list \<Rightarrow> invoice list" where
  "update_statuses allocs [] invs = invs"
| "update_statuses allocs (allocation # rest) invs =
     (case filter (\<lambda>i. inv_id i = alloc_invoice allocation) invs of
        [] \<Rightarrow> update_statuses allocs rest invs
      | invoice # _ \<Rightarrow>
          (let paid_total = invoice_paid allocs (inv_id invoice)
           in if paid_total \<ge> inv_total_amount invoice \<and> inv_status invoice \<noteq> ''paid''
              then update_statuses allocs rest (mark_paid invs (inv_id invoice))
              else update_statuses allocs rest invs))"

text \<open>The primary key of the new Payment row.\<close>

definition new_payment_pk :: "payment list \<Rightarrow> nat" where
  "new_payment_pk ps = Suc (fold max (map pay_id ps) 0)"

text \<open>
  \<open>PaymentCreateView.form_valid\<close>, the body of its \<open>transaction.atomic()\<close> block. An
  error raised inside rolls everything back: the result is the error alone, the database
  being the one before the call. \<open>payment_number\<close> is unique.
\<close>

definition form_valid :: "database \<Rightarrow> payment_form \<Rightarrow> manual_input list \<Rightarrow> error + database" where
  "form_valid db form post =
     (if list_ex (\<lambda>q. pay_number q = pf_payment_number form) (payments db) then Inl IntegrityError
      else
        (let p = \<lparr> pay_id = new_payment_pk (payments db), pay_company = pf_company form,
                   pay_customer = cust_id (pf_customer form), pay_number = pf_payment_number form,
                   pay_date = pf_payment_date form, pay_amount = pf_amount form \<rparr>
         in case allocate_selected p (pf_invoice form) (allocations db) of
              Inl err \<Rightarrow> Inl err
            | Inr st1 \<Rightarrow>
                (case allocate_manual (invoices db) p (pf_invoice form) post st1 of
                   Inl err \<Rightarrow> Inl err
                 | Inr (allocs2, allocations_made) \<Rightarrow>
                     (case (if \<not> allocations_made
                            then allocate_fifo p
                                   (unpaid_invoices (invoices db) (pay_company p) (pay_customer p))
                                   (pay_amount p) allocs2
                            else Inr allocs2) of
                        Inl err \<Rightarrow> Inl err
                      | Inr allocs3 \<Rightarrow>
                          (case create_customer_payment_entry (ledger_entries db) (pf_now form)
                                  (pay_company p) (pf_customer form) (pay_amount p) (pay_date p)
                                  (''Payment '' @ pay_number p @ '' ('' @ pf_method_display form @ '')'')
                                  (Some (PaymentModel, pay_id p)) of
                             (_, Inl err) \<Rightarrow> Inl err
                           | (ledger', Inr _) \<Rightarrow>
                               Inr \<lparr> ledger_entries = ledger',
                                     invoices = update_statuses allocs3
                                       (filter (\<lambda>a. alloc_payment a = pay_id p) allocs3) (invoices db),
                                     payments = payments db @ [p],
                                     allocations = allocs3 \<rparr>)))))"

text \<open>
  The FIFO rule in the specification's words: the open invoices, given in invoice-date
  order each with its outstanding amount, receive \<open>min(remaining_payment, outstanding)\<close>
  one after the other until the payment or the invoices are exhausted.
\<close>

fun fifo_spec :: "int \<Rightarrow> (nat \<times> int) list \<Rightarrow> (nat \<times> int) list" where
  "fifo_spec remaining [] = []"
| "fifo_spec remaining ((iid, outstanding) # rest) =
     (if remaining \<le> 0 then []
      else (iid, min remaining outstanding) # fifo_spec (remaining - min remaining outstanding) rest)"

text \<open>
  The customer's open invoices in the specification's words: the invoices of the customer
  with status sent, by invoice date ascending, each with its outstanding amount (total
  minus the sum of its allocations), those with something outstanding.
\<close>

definition open_invoices_spec ::
  "invoice list \<Rightarrow> payment_allocation list \<Rightarrow> nat \<Rightarrow> nat \<Rightarrow> (nat \<times> int) list" where
  "open_invoices_spec invs allocs c cust =
     filter (\<lambda>(iid, outstanding). 0 < outstanding)
       (map (\<lambda>i. (inv_id i, inv_total_amount i - invoice_paid allocs (inv_id i)))
          (sort_key inv_date
             (filter (\<lambda>i. \<not> inv_is_deleted i \<and> inv_company i = c \<and> inv_customer i = cust \<and>
                           inv_status i = ''sent'') invs)))"

text \<open>The allocation rows of a payment for a list of (invoice, amount) pairs.\<close>

definition fifo_allocations :: "nat \<Rightarrow> (nat \<times> int) list \<Rightarrow> payment_allocation list" where
  "fifo_allocations pk xs =
     map (\<lambda>(iid, amount). \<lparr> alloc_payment = pk, alloc_invoice = iid, alloc_amount = amount \<rparr>) xs"

text \<open>\<open>STATUS_CHOICES\<close> of Invoice\<close>

definition STATUS_CHOICES :: "string list" where
  "STATUS_CHOICES = [''draft'', ''sent'', ''paid'', ''cancelled'']"

section \<open>Sample data\<close>

definition sample_entry :: "nat \<Rightarrow> nat \<Rightarrow> int \<Rightarrow> int \<Rightarrow> int \<Rightarrow> int \<Rightarrow> int \<Rightarrow> ledger_entry" where
  "sample_entry i pid dr cr rb d t =
     \<lparr> entry_id = i, company = 1, party_type = CustomerParty, party_id = pid,
       entry_type = AdjustmentEntry, debit = dr, credit = cr, running_balance = rb,
       reference_type = None, reference_id = None, description = [],
       transaction_date = d, created_at = t \<rparr>"

text \<open>Customer 7: a debit of 100 on day 10, a credit of 60 on day 12. Customer 8: a debit of 70.\<close>

definition sample_ledger :: ledger_table where
  "sample_ledger =
     [sample_entry 1 7 100 0 100 10 1, sample_entry 2 7 0 60 40 12 2, sample_entry 3 8 70 0 70 12 3]"

definition sample_customer :: customer where
  "sample_customer = \<lparr> cust_id = 7, cust_company = 1, cust_name = ''Ann'', cust_is_deleted = False \<rparr>"

definition sample_invoice :: invoice where
  "sample_invoice = \<lparr> inv_id = 5, inv_company = 1, inv_customer = 7, inv_number = ''INV-5'',
     inv_date = 10, inv_status = ''sent'', inv_total_amount = 100, inv_is_deleted = False \<rparr>"

text \<open>The ledger entry of \<open>sample_invoice\<close>.\<close>

definition sample_invoice_entry :: ledger_entry where
  "sample_invoice_entry = \<lparr> entry_id = 1, company = 1, party_type = CustomerParty, party_id = 7,
       entry_type = InvoiceEntry, debit = 100, credit = 0, running_balance = 100,
       reference_type = Some InvoiceModel, reference_id = Some 5, description = ''Invoice INV-5'',
       transaction_date = 10, created_at = 1 \<rparr>"

text \<open>
  Two entries created one after the other for customer 7 of company 1: a debit of 100
  dated day 10, then a credit of 60 dated day 5.
\<close>

definition backdated_ledger :: ledger_table where
  "backdated_ledger =
     fst (create_adjustment_entry
            (fst (create_adjustment_entry [] 1 1 CustomerParty 7 100 True 10 ''first''))
            2 1 CustomerParty 7 60 False 5 ''second'')"

text \<open>A table whose stored balances of customer 7 do not follow the entries' dates.\<close>

definition drifted_ledger :: ledger_table where
  "drifted_ledger =
     [sample_entry 1 7 100 0 100 10 1, sample_entry 2 7 50 0 150 5 2, sample_entry 3 8 70 0 70 12 3]"

definition sample_customers :: "customer list" where
  "sample_customers =
     [sample_customer,
      \<lparr> cust_id = 8, cust_company = 1, cust_name = ''Bob'', cust_is_deleted = False \<rparr>]"

text \<open>
  Customer 7 has two sent invoices with their ledger entries, A of 100 (older) and B of
  80, and pays 150 with no invoice selected; \<open>fifo_db_after\<close> is the database after
  the payment is recorded.
\<close>

definition fifo_db :: database where
  "fifo_db = \<lparr> ledger_entries =
        [\<lparr> entry_id = 1, company = 1, party_type = CustomerParty, party_id = 7,
            entry_type = InvoiceEntry, debit = 100, credit = 0, running_balance = 100,
            reference_type = Some InvoiceModel, reference_id = Some 1,
            description = ''Invoice INV-A'', transaction_date = 1, created_at = 1 \<rparr>,
         \<lparr> entry_id = 2, company = 1, party_type = CustomerParty, party_id = 7,
            entry_type = InvoiceEntry, debit = 80, credit = 0, running_balance = 180,
            reference_type = Some InvoiceModel, reference_id = Some 2,
            description = ''Invoice INV-B'', transaction_date = 2, created_at = 2 \<rparr>],
      invoices =
        [\<lparr> inv_id = 1, inv_company = 1, inv_customer = 7, inv_number = ''INV-A'', inv_date = 1,
            inv_status = ''sent'', inv_total_amount = 100, inv_is_deleted = False \<rparr>,
         \<lparr> inv_id = 2, inv_company = 1, inv_customer = 7, inv_number = ''INV-B'', inv_date = 2,
            inv_status = ''sent'', inv_total_amount = 80, inv_is_deleted = False \<rparr>],
      payments = [], allocations = [] \<rparr>"

definition fifo_form :: payment_form where
  "fifo_form = \<lparr> pf_company = 1, pf_customer = sample_customer, pf_invoice = None,
      pf_payment_date = 20, pf_amount = 150, pf_payment_number = ''PAY-1'',
      pf_method_display = ''Cash'', pf_now = 5 \<rparr>"

definition fifo_db_after :: database where
  "fifo_db_after = \<lparr> ledger_entries =
        [\<lparr> entry_id = 1, company = 1, party_type = CustomerParty, party_id = 7,
            entry_type = InvoiceEntry, debit = 100, credit = 0, running_balance = 100,
            reference_type = Some InvoiceModel, reference_id = Some 1,
            description = ''Invoice INV-A'', transaction_date = 1, created_at = 1 \<rparr>,
         \<lparr> entry_id = 2, company = 1, party_type = CustomerParty, party_id = 7,
            entry_type = InvoiceEntry, debit = 80, credit = 0, running_balance = 180,
            reference_type = Some InvoiceModel, reference_id = Some 2,
            description = ''Invoice INV-B'', transaction_date = 2, created_at = 2 \<rparr>,
         \<lparr> entry_id = 3, company = 1, party_type = CustomerParty, party_id = 7,
            entry_type = PaymentEntry, debit = 0, credit = 150, running_balance = 30,
            reference_type = Some PaymentModel, reference_id = Some 1,
            description = ''Payment PAY-1 (Cash)'', transaction_date = 20, created_at = 5 \<rparr>],
      invoices =
        [\<lparr> inv_id = 1, inv_company = 1, inv_customer = 7, inv_number = ''INV-A'', inv_date = 1,
            inv_status = ''paid'', inv_total_amount = 100, inv_is_deleted = False \<rparr>,
         \<lparr> inv_id = 2, inv_company = 1, inv_customer = 7, inv_number = ''INV-B'', inv_date = 2,
            inv_status = ''sent'', inv_total_amount = 80, inv_is_deleted = False \<rparr>],
      payments =
        [\<lparr> pay_id = 1, pay_company = 1, pay_customer = 7, pay_number = ''PAY-1'', pay_date = 20,
            pay_amount = 150 \<rparr>],
      allocations =
        [\<lparr> alloc_payment = 1, alloc_invoice = 1, alloc_amount = 100 \<rparr>,
         \<lparr> alloc_payment = 1, alloc_invoice = 2, alloc_amount = 50 \<rparr>] \<rparr>"

text \<open>Customer 7 has one invoice of 100 and pays 50, typing 80 into the invoice's allocation field.\<close>

definition over_db :: database where
  "over_db = \<lparr> ledger_entries = [], invoices = [sample_invoice], payments = [], allocations = [] \<rparr>"

definition over_form :: payment_form where
  "over_form = \<lparr> pf_company = 1, pf_customer = sample_customer, pf_invoice = None,
      pf_payment_date = 20, pf_amount = 50, pf_payment_number = ''PAY-1'',
      pf_method_display = ''Cash'', pf_now = 5 \<rparr>"

definition over_post :: "manual_input list" where
  "over_post = [\<lparr> mi_invoice_id = Some 5, mi_amount = Some 80 \<rparr>]"

section \<open>Notions used in the proofs\<close>

text \<open>
  The running balances a recalculation that starts from \<open>rb\<close> computes for the entries
  it walks, by primary key, and the table row with that balance stored.
\<close>

fun targets :: "int \<Rightarrow> ledger_entry list \<Rightarrow> (nat \<times> int) list" where
  "targets rb [] = []"
| "targets rb (e # es) = (entry_id e, rb + debit e - credit e) # targets (rb + debit e - credit e) es"

definition set_balance :: "(nat \<times> int) list \<Rightarrow> ledger_entry \<Rightarrow> ledger_entry" where
  "set_balance ts e = (case map_of ts (entry_id e) of Some b \<Rightarrow> e\<lparr>running_balance := b\<rparr> | None \<Rightarrow> e)"

text \<open>The row one pass of the loop of \<open>get_all_outstanding_customers\<close> appends, if any.\<close>

definition outstanding_row_of ::
  "ledger_table \<Rightarrow> customer list \<Rightarrow> nat \<Rightarrow> nat \<times> int \<times> int \<Rightarrow> outstanding_row option" where
  "outstanding_row_of tbl customers c info =
     (case info of (pid, latest_date, latest_created) \<Rightarrow>
        (case qs_first (filter (\<lambda>e. company e = c \<and> party_type e = CustomerParty \<and> party_id e = pid \<and>
                                   transaction_date e = latest_date \<and> created_at e = latest_created) tbl) of
           None \<Rightarrow> None
         | Some le \<Rightarrow>
             if running_balance le > 0 then
               (case Customer_objects_get customers pid c of
                  Inr cu \<Rightarrow> Some \<lparr> customer_id = cust_id cu, customer_name = cust_name cu,
                                    balance = running_balance le \<rparr>
                | Inl _ \<Rightarrow> None)
             else None))"

text \<open>The (invoice, outstanding) pairs the FIFO loop allocates to, for the invoices it walks.\<close>

definition outstanding_pairs :: "payment_allocation list \<Rightarrow> invoice list \<Rightarrow> (nat \<times> int) list" where
  "outstanding_pairs allocs invs =
     filter (\<lambda>(iid, outstanding). 0 < outstanding)
       (map (\<lambda>i. (inv_id i, inv_total_amount i - invoice_paid allocs (inv_id i))) invs)"

section \<open>Queries\<close>

lemma qs_first_sort_key_min:
  fixes k :: "'a \<Rightarrow> 'b::linorder"
  assumes "xs \<noteq> []"
  shows "\<exists>x\<in>set xs. qs_first (sort_key k xs) = Some x \<and> (\<forall>y\<in>set xs. k x \<le> k y)"
proof -
  from assms have "sort_key k xs \<noteq> []"
    by (metis length_sort length_0_conv)
  then obtain x rest where eq: "sort_key k xs = x # rest"
    by (cases "sort_key k xs") auto
  have srt: "sorted (map k (sort_key k xs))" by (rule sorted_sort_key)
  have xin: "x \<in> set xs" using eq by (metis list.set_intros(1) set_sort)
  have "\<forall>y\<in>set xs. k x \<le> k y"
  proof
    fix y assume "y \<in> set xs"
    then have "y \<in> set (x # rest)" using eq by (metis set_sort)
    then show "k x \<le> k y" using srt eq by auto
  qed
  then show ?thesis using xin eq by (auto simp: qs_first_def)
qed

text \<open>
  C9. \<open>get_customer_outstanding\<close> is a total function (it has no error result): for a
  customer with no entries it returns 0, and otherwise it returns the running_balance of
  an entry of the customer that no entry of the customer follows in
  (transaction_date, created_at) order.
\<close>

theorem get_customer_outstanding_latest:
  "(filter_party tbl c CustomerParty cid = [] \<longrightarrow> get_customer_outstanding tbl c cid = 0) \<and>
   (filter_party tbl c CustomerParty cid \<noteq> [] \<longrightarrow>
      (\<exists>e\<in>set (filter_party tbl c CustomerParty cid).
         (\<forall>e'\<in>set (filter_party tbl c CustomerParty cid).
            (transaction_date e', created_at e') \<le> (transaction_date e, created_at e)) \<and>
         get_customer_outstanding tbl c cid = running_balance e))"
proof (intro conjI impI)
  assume "filter_party tbl c CustomerParty cid = []"
  then show "get_customer_outstanding tbl c cid = 0"
    by (simp add: get_customer_outstanding_def order_by_date_created_desc_def qs_first_def)
next
  let ?es = "filter_party tbl c CustomerParty cid"
  assume "?es \<noteq> []"
  from qs_first_sort_key_min[OF this, of "\<lambda>e. (- transaction_date e, - created_at e)"]
  obtain e where e: "e \<in> set ?es"
    "qs_first (order_by_date_created_desc ?es) = Some e"
    "\<forall>y\<in>set ?es. (- transaction_date e, - created_at e) \<le> (- transaction_date y, - created_at y)"
    unfolding order_by_date_created_desc_def by blast
  have "\<forall>e'\<in>set ?es. (transaction_date e', created_at e') \<le> (transaction_date e, created_at e)"
    using e(3) by auto
  moreover have "get_customer_outstanding tbl c cid = running_balance e"
    using e(2) by (simp add: get_customer_outstanding_def)
  ultimately show "\<exists>e\<in>set ?es.
         (\<forall>e'\<in>set ?es.
            (transaction_date e', created_at e') \<le> (transaction_date e, created_at e)) \<and>
         get_customer_outstanding tbl c cid = running_balance e"
    using e(1) by blast
qed

theorem get_customer_outstanding_latest_witness:
  "filter_party sample_ledger 1 CustomerParty 7 \<noteq> [] \<and>
   filter_party sample_ledger 1 CustomerParty 9 = [] \<and>
   (\<exists>e\<in>set (filter_party sample_ledger 1 CustomerParty 7).
      (\<forall>e'\<in>set (filter_party sample_ledger 1 CustomerParty 7).
         (transaction_date e', created_at e') \<le> (transaction_date e, created_at e)) \<and>
      get_customer_outstanding sample_ledger 1 7 = running_balance e) \<and>
   get_customer_outstanding sample_ledger 1 7 = 40 \<and>
   get_customer_outstanding sample_ledger 1 9 = 0"
proof -
  have ne: "filter_party sample_ledger 1 CustomerParty 7 \<noteq> []"
    by (simp add: filter_party_def sample_ledger_def sample_entry_def)
  have em: "filter_party sample_ledger 1 CustomerParty 9 = []"
    by (simp add: filter_party_def sample_ledger_def sample_entry_def)
  have v: "get_customer_outstanding sample_ledger 1 7 = 40"
    by (simp add: get_customer_outstanding_def filter_party_def sample_ledger_def
        sample_entry_def order_by_date_created_desc_def qs_first_def)
  show ?thesis
    using get_customer_outstanding_latest[of sample_ledger 1 7]
      get_customer_outstanding_latest[of sample_ledger 1 9] ne em v
    by blast
qed

section \<open>Entry creation\<close>

text \<open>
  C5. When the table holds an entry with a reference (reference_type and reference_id
  not null), creating an entry with the same reference_type, reference_id and entry_type
  fails with IntegrityError, the database's uniqueness conflict, and the table is the one
  before the call: no row is written and no row is changed.
\<close>

theorem create_entry_duplicate_reference:
  assumes "e \<in> set tbl" and "reference_type e = Some m" and "reference_id e = Some k"
  shows "create_entry tbl now c pt pid (entry_type e) dr cr tdate descr (Some (m, k)) =
           (tbl, Inl IntegrityError)"
proof -
  have "unique_reference_entry_violated tbl (Some m) (Some k) (entry_type e)"
    using assms by (auto simp: unique_reference_entry_violated_def list_ex_iff)
  then show ?thesis by (simp add: create_entry_def Let_def)
qed

theorem create_entry_duplicate_reference_witness:
  "sample_invoice_entry \<in> set [sample_invoice_entry] \<and>
   reference_type sample_invoice_entry = Some InvoiceModel \<and>
   reference_id sample_invoice_entry = Some 5 \<and>
   create_customer_invoice_entry [sample_invoice_entry] 2 1 sample_customer sample_invoice =
     ([sample_invoice_entry], Inl IntegrityError)"
proof -
  have a: "sample_invoice_entry \<in> set [sample_invoice_entry]" by simp
  have b: "reference_type sample_invoice_entry = Some InvoiceModel"
    by (simp add: sample_invoice_entry_def)
  have c: "reference_id sample_invoice_entry = Some 5"
    by (simp add: sample_invoice_entry_def)
  have d: "entry_type sample_invoice_entry = InvoiceEntry"
    by (simp add: sample_invoice_entry_def)
  show ?thesis
    using create_entry_duplicate_reference[OF a b c, of 2 1 CustomerParty 7 100 0 10 "''Invoice INV-5''"] a b c d
    by (simp add: create_customer_invoice_entry_def sample_customer_def sample_invoice_def)
qed

text \<open>
  C4. The service writes entries that break the debit-xor-credit rule: an adjustment of
  amount 0 for a party without entries is stored with debit 0 and credit 0, a row that
  \<open>LedgerEntry.clean\<close> rejects with ValidationError. The service never runs
  \<open>clean\<close>.
\<close>

theorem create_adjustment_entry_zero_amount_written:
  "\<exists>e. create_adjustment_entry [] 5 1 CustomerParty 7 0 True 3 ''write-off'' = ([e], Inr e) \<and>
        debit e = 0 \<and> credit e = 0 \<and> LedgerEntry_clean e = Inl ValidationError"
  by (simp add: create_adjustment_entry_def create_entry_def filter_party_def
      order_by_date_created_desc_def qs_first_def unique_reference_entry_violated_def new_pk_def Let_def
      LedgerEntry_clean_def)

text \<open>An adjustment has no reference, so it is written whatever its amount is.\<close>

lemma create_adjustment_entry_always_writes:
  "\<exists>e. create_adjustment_entry tbl now c pt pid amount is_debit d descr = (tbl @ [e], Inr e) \<and>
        debit e = (if is_debit then amount else 0) \<and> credit e = (if is_debit then 0 else amount)"
  by (simp add: create_adjustment_entry_def create_entry_def unique_reference_entry_violated_def Let_def)

lemma negative_payment_written:
  "\<exists>e. create_customer_payment_entry [] 5 1 sample_customer (-50) 3 ''refund'' None = ([e], Inr e) \<and>
        credit e = -50 \<and> running_balance e = 50"
  by (simp add: create_customer_payment_entry_def create_entry_def filter_party_def
      order_by_date_created_desc_def qs_first_def unique_reference_entry_violated_def new_pk_def Let_def)

text \<open>
  C2. After the two creations of \<open>backdated_ledger\<close> the entries of the party in
  (transaction_date, created_at) order are the credit of 60 with running_balance 40 and
  the debit of 100 with running_balance 100; the recurrence asks for -60 and 40, and the
  audit command's own check reports the party as a balance mismatch.
\<close>

theorem backdated_entry_breaks_recurrence:
  "map (\<lambda>e. (transaction_date e, debit e, credit e, running_balance e))
       (order_by_date_created (filter_party backdated_ledger 1 CustomerParty 7)) =
     [(5, 0, 60, 40), (10, 100, 0, 100)] \<and>
   audit_party_has_error backdated_ledger 1 CustomerParty 7"
  by (simp add: backdated_ledger_def create_adjustment_entry_def create_entry_def filter_party_def
      order_by_date_created_desc_def order_by_date_created_def qs_first_def
      unique_reference_entry_violated_def new_pk_def Let_def audit_party_has_error_def)

text \<open>
  Run one after the other, a debit of 100 dated day 10 and a debit of 50 dated day 5 leave
  an outstanding balance that depends on which is created first: 150 when the earlier-dated
  one comes first, 100 when it comes second.
\<close>

lemma outstanding_depends_on_creation_order:
  "get_customer_outstanding
     (fst (create_adjustment_entry
             (fst (create_adjustment_entry [] 1 1 CustomerParty 7 50 True 5 ''second''))
             2 1 CustomerParty 7 100 True 10 ''first'')) 1 7 = 150 \<and>
   get_customer_outstanding
     (fst (create_adjustment_entry
             (fst (create_adjustment_entry [] 1 1 CustomerParty 7 100 True 10 ''first''))
             2 1 CustomerParty 7 50 True 5 ''second'')) 1 7 = 100"
  by (simp add: create_adjustment_entry_def create_entry_def filter_party_def
      order_by_date_created_desc_def qs_first_def unique_reference_entry_violated_def
      new_pk_def get_customer_outstanding_def Let_def)

section \<open>Recalculation\<close>

lemma set_balance_fields [simp]:
  "entry_id (set_balance ts e) = entry_id e"
  "company (set_balance ts e) = company e"
  "party_type (set_balance ts e) = party_type e"
  "party_id (set_balance ts e) = party_id e"
  "debit (set_balance ts e) = debit e"
  "credit (set_balance ts e) = credit e"
  "transaction_date (set_balance ts e) = transaction_date e"
  "created_at (set_balance ts e) = created_at e"
  by (auto simp: set_balance_def split: option.splits)

lemma recalculate_loop_final:
  "snd (snd (recalculate_loop rb es tbl saved)) = rb + sum_list (map (\<lambda>e. debit e - credit e) es)"
  by (induction es arbitrary: rb tbl saved) (auto simp: Let_def)

lemma audit_loop_True: "audit_loop x es True = True"
  by (induction es arbitrary: x) (auto simp: Let_def)

lemma recalculate_loop_balanced:
  "audit_loop rb es False = False \<Longrightarrow>
   recalculate_loop rb es tbl saved = (tbl, saved, rb + sum_list (map (\<lambda>e. debit e - credit e) es))"
proof (induction es arbitrary: rb)
  case Nil
  then show ?case by simp
next
  case (Cons e es)
  let ?rb' = "rb + debit e - credit e"
  have eq: "running_balance e = ?rb'"
    using Cons.prems by (auto simp: Let_def audit_loop_True split: if_splits)
  have "audit_loop ?rb' es False = False"
    using Cons.prems eq by (simp add: Let_def algebra_simps)
  from Cons.IH[OF this] eq show ?case by (simp add: Let_def algebra_simps)
qed

lemma map_of_targets_None:
  "k \<notin> entry_id ` set es \<Longrightarrow> map_of (targets rb es) k = None"
  by (induction es arbitrary: rb) auto

lemma recalculate_loop_table:
  assumes "distinct (map entry_id es)"
    and "\<forall>e\<in>set es. \<forall>x\<in>set tbl. entry_id x = entry_id e \<longrightarrow> x = e"
  shows "fst (recalculate_loop rb es tbl saved) = map (set_balance (targets rb es)) tbl"
  using assms
proof (induction es arbitrary: rb tbl saved)
  case Nil
  then show ?case by (simp add: set_balance_def)
next
  case (Cons e es)
  let ?rb' = "rb + debit e - credit e"
  have d: "distinct (map entry_id es)" and notin: "entry_id e \<notin> entry_id ` set es"
    using Cons.prems(1) by auto
  have none: "map_of (targets ?rb' es) (entry_id e) = None"
    using notin by (rule map_of_targets_None)
  show ?case
  proof (cases "running_balance e = ?rb'")
    case True
    have inv: "\<forall>e'\<in>set es. \<forall>x\<in>set tbl. entry_id x = entry_id e' \<longrightarrow> x = e'"
      using Cons.prems(2) by auto
    have "fst (recalculate_loop ?rb' es tbl saved) = map (set_balance (targets ?rb' es)) tbl"
      by (rule Cons.IH[OF d inv])
    moreover have "map (set_balance (targets ?rb' es)) tbl = map (set_balance (targets rb (e # es))) tbl"
    proof (rule map_cong[OF refl])
      fix x assume x: "x \<in> set tbl"
      show "set_balance (targets ?rb' es) x = set_balance (targets rb (e # es)) x"
      proof (cases "entry_id x = entry_id e")
        case eq: True
        then have "x = e" using Cons.prems(2) x by auto
        then show ?thesis using none True by (simp add: set_balance_def)
      next
        case False
        then show ?thesis by (simp add: set_balance_def)
      qed
    qed
    ultimately show ?thesis using True by (simp add: Let_def)
  next
    case False
    let ?tbl1 = "save_running_balance tbl (entry_id e) ?rb'"
    have inv: "\<forall>e'\<in>set es. \<forall>x\<in>set ?tbl1. entry_id x = entry_id e' \<longrightarrow> x = e'"
    proof (intro ballI impI)
      fix e' x assume e': "e' \<in> set es" and x: "x \<in> set ?tbl1" and eq: "entry_id x = entry_id e'"
      from x obtain y where y: "y \<in> set tbl"
        and xy: "x = (if entry_id y = entry_id e then y\<lparr>running_balance := ?rb'\<rparr> else y)"
        by (auto simp: save_running_balance_def)
      have "entry_id y = entry_id e'" using xy eq by (auto split: if_splits)
      moreover have "entry_id e' \<noteq> entry_id e" using e' notin by (metis imageI)
      ultimately have "x = y" using xy by simp
      then show "x = e'" using Cons.prems(2) e' y eq by auto
    qed
    have "fst (recalculate_loop ?rb' es ?tbl1 (saved @ [entry_id e])) =
          map (set_balance (targets ?rb' es)) ?tbl1"
      by (rule Cons.IH[OF d inv])
    moreover have "map (set_balance (targets ?rb' es)) ?tbl1 = map (set_balance (targets rb (e # es))) tbl"
      unfolding save_running_balance_def map_map
    proof (rule map_cong[OF refl])
      fix x assume x: "x \<in> set tbl"
      show "(set_balance (targets ?rb' es) \<circ> (\<lambda>e'. if entry_id e' = entry_id e then e'\<lparr>running_balance := ?rb'\<rparr> else e')) x
            = set_balance (targets rb (e # es)) x"
        using none by (simp add: set_balance_def)
    qed
    ultimately show ?thesis using False by (simp add: Let_def)
  qed
qed

lemma insort_key_map_same_key:
  assumes "\<And>x. k (g x) = k x"
  shows "insort_key k (g x) (map g xs) = map g (insort_key k x xs)"
  by (induction xs) (auto simp: assms)

lemma sort_key_map_same_key:
  assumes "\<And>x. k (g x) = k x"
  shows "sort_key k (map g xs) = map g (sort_key k xs)"
  by (induction xs) (simp_all add: insort_key_map_same_key assms)

lemma party_entries_set_balance:
  "order_by_date_created (filter_party (map (set_balance ts) tbl) c pt pid) =
   map (set_balance ts) (order_by_date_created (filter_party tbl c pt pid))"
proof -
  have "filter_party (map (set_balance ts) tbl) c pt pid = map (set_balance ts) (filter_party tbl c pt pid)"
    by (simp add: filter_party_def filter_map comp_def)
  then show ?thesis
    by (simp add: order_by_date_created_def sort_key_map_same_key)
qed

lemma audit_loop_set_balance:
  assumes "distinct (map entry_id es)"
    and "\<forall>e\<in>set es. map_of ts (entry_id e) = map_of (targets rb es) (entry_id e)"
  shows "audit_loop rb (map (set_balance ts) es) False = False"
  using assms
proof (induction es arbitrary: rb)
  case Nil
  then show ?case by simp
next
  case (Cons e es)
  let ?rb' = "rb + debit e - credit e"
  have hd: "running_balance (set_balance ts e) = ?rb'"
    using Cons.prems(2) by (simp add: set_balance_def)
  have "\<forall>e'\<in>set es. map_of ts (entry_id e') = map_of (targets ?rb' es) (entry_id e')"
  proof
    fix e' assume e': "e' \<in> set es"
    then have "entry_id e' \<noteq> entry_id e" using Cons.prems(1) by (metis distinct.simps(2) imageI list.simps(9) set_map)
    then show "map_of ts (entry_id e') = map_of (targets ?rb' es) (entry_id e')"
      using Cons.prems(2) e' by simp
  qed
  with Cons.IH[of ?rb'] Cons.prems(1) have "audit_loop ?rb' (map (set_balance ts) es) False = False"
    by simp
  then show ?case using hd by (simp add: Let_def algebra_simps)
qed

lemma distinct_ids_party:
  assumes "distinct (map entry_id tbl)"
  shows "distinct (map entry_id (order_by_date_created (filter_party tbl c pt pid)))"
proof -
  have d: "distinct (map entry_id (filter_party tbl c pt pid))"
    unfolding filter_party_def using assms by (rule distinct_map_filter)
  have m: "mset (map entry_id (order_by_date_created (filter_party tbl c pt pid))) =
        mset (map entry_id (filter_party tbl c pt pid))"
    by (simp add: order_by_date_created_def)
  show ?thesis by (rule iffD2[OF mset_eq_imp_distinct_iff[OF m] d])
qed

lemma sum_party_sorted:
  "sum_list (map f (order_by_date_created es)) = sum_list (map (f::ledger_entry \<Rightarrow> int) es)"
proof -
  have "mset (map f (order_by_date_created es)) = mset (map f es)"
    by (simp add: order_by_date_created_def)
  then have "sum_mset (mset (map f (order_by_date_created es))) = sum_mset (mset (map f es))"
    by (rule arg_cong)
  then show ?thesis by (simp only: sum_mset_sum_list)
qed

text \<open>
  C8. In a table whose primary keys are distinct, \<open>recalculate_party_balance\<close> returns
  the sum over the party's entries of debit minus credit, and a second call on the table
  the first one leaves returns the same balance, saves no entry and leaves the table as
  it is.
\<close>

theorem recalculate_party_balance_idempotent:
  assumes "distinct (map entry_id tbl)"
  shows "\<exists>tbl1 saved1 final1.
           recalculate_party_balance tbl c pt pid = (tbl1, saved1, final1) \<and>
           final1 = sum_list (map (\<lambda>e. debit e - credit e) (filter_party tbl c pt pid)) \<and>
           recalculate_party_balance tbl1 c pt pid = (tbl1, [], final1)"
proof -
  let ?es = "order_by_date_created (filter_party tbl c pt pid)"
  let ?ts = "targets 0 ?es"
  let ?r = "recalculate_party_balance tbl c pt pid"
  have d: "distinct (map entry_id ?es)" using assms by (rule distinct_ids_party)
  have sub: "set ?es \<subseteq> set tbl"
    by (auto simp: order_by_date_created_def filter_party_def)
  have inj: "inj_on entry_id (set tbl)" using assms by (simp add: distinct_map)
  have inv: "\<forall>e\<in>set ?es. \<forall>x\<in>set tbl. entry_id x = entry_id e \<longrightarrow> x = e"
    using sub inj by (meson inj_onD subsetD)
  have t1: "fst ?r = map (set_balance ?ts) tbl"
    unfolding recalculate_party_balance_def by (rule recalculate_loop_table[OF d inv])
  have f1: "snd (snd ?r) = sum_list (map (\<lambda>e. debit e - credit e) (filter_party tbl c pt pid))"
    unfolding recalculate_party_balance_def by (simp add: recalculate_loop_final sum_party_sorted)
  have es': "order_by_date_created (filter_party (fst ?r) c pt pid) = map (set_balance ?ts) ?es"
    unfolding t1 by (rule party_entries_set_balance)
  have bal: "audit_loop 0 (map (set_balance ?ts) ?es) False = False"
    by (rule audit_loop_set_balance[OF d]) simp
  have "recalculate_party_balance (fst ?r) c pt pid =
        recalculate_loop 0 (map (set_balance ?ts) ?es) (fst ?r) []"
    using es' by (simp add: recalculate_party_balance_def[of "fst ?r"])
  also have "\<dots> = (fst ?r, [], 0 + sum_list (map (\<lambda>e. debit e - credit e) (map (set_balance ?ts) ?es)))"
    by (rule recalculate_loop_balanced[OF bal])
  also have "sum_list (map (\<lambda>e. debit e - credit e) (map (set_balance ?ts) ?es)) =
             sum_list (map (\<lambda>e. debit e - credit e) ?es)"
    by (simp add: comp_def)
  also have "\<dots> = snd (snd ?r)" using f1 by (simp add: sum_party_sorted)
  finally have second: "recalculate_party_balance (fst ?r) c pt pid = (fst ?r, [], snd (snd ?r))"
    by simp
  obtain tbl1 saved1 final1 where r: "?r = (tbl1, saved1, final1)"
    by (cases ?r) auto
  show ?thesis using f1 second unfolding r by simp
qed

theorem recalculate_party_balance_idempotent_witness:
  "distinct (map entry_id drifted_ledger) \<and>
   (\<exists>tbl1 saved1 final1.
      recalculate_party_balance drifted_ledger 1 CustomerParty 7 = (tbl1, saved1, final1) \<and>
      final1 = sum_list (map (\<lambda>e. debit e - credit e) (filter_party drifted_ledger 1 CustomerParty 7)) \<and>
      recalculate_party_balance tbl1 1 CustomerParty 7 = (tbl1, [], final1) \<and>
      saved1 = [2, 1] \<and> final1 = 150)"
proof -
  have d: "distinct (map entry_id drifted_ledger)"
    by (simp add: drifted_ledger_def sample_entry_def)
  have v: "snd (recalculate_party_balance drifted_ledger 1 CustomerParty 7) = ([2, 1], 150)"
    by (simp add: recalculate_party_balance_def drifted_ledger_def sample_entry_def
        filter_party_def order_by_date_created_def save_running_balance_def Let_def)
  from recalculate_party_balance_idempotent[OF d, of 1 CustomerParty 7]
  obtain tbl1 saved1 final1 where
    r: "recalculate_party_balance drifted_ledger 1 CustomerParty 7 = (tbl1, saved1, final1)"
      "final1 = sum_list (map (\<lambda>e. debit e - credit e) (filter_party drifted_ledger 1 CustomerParty 7))"
      "recalculate_party_balance tbl1 1 CustomerParty 7 = (tbl1, [], final1)"
    by blast
  have "saved1 = [2, 1] \<and> final1 = 150" using v r(1) by simp
  then show ?thesis using d r by blast
qed

section \<open>Outstanding customers\<close>

lemma outstanding_loop_map_filter:
  "outstanding_loop tbl customers c infos results =
     results @ List.map_filter (outstanding_row_of tbl customers c) infos"
proof (induction infos arbitrary: results)
  case Nil
  then show ?case by (simp add: List.map_filter_simps)
next
  case (Cons info infos)
  obtain pid ld lc where info: "info = (pid, ld, lc)" by (cases info) auto
  show ?case unfolding info
    by (simp add: Cons.IH List.map_filter_simps outstanding_row_of_def Let_def
        split: option.splits sum.splits)
qed

lemma set_map_filter:
  "set (List.map_filter f xs) = {y. \<exists>x\<in>set xs. f x = Some y}"
  by (induction xs) (auto split: option.splits)

lemma set_get_all_outstanding_customers:
  "set (get_all_outstanding_customers tbl customers c) =
     {r. \<exists>info\<in>set (latest_entries tbl c). outstanding_row_of tbl customers c info = Some r}"
  by (simp add: get_all_outstanding_customers_def outstanding_loop_map_filter set_map_filter)

lemma Customer_objects_get_Inr:
  "Customer_objects_get customers pid c = Inr cu \<Longrightarrow>
     cust_id cu = pid \<and> cust_company cu = c \<and> \<not> cust_is_deleted cu \<and> cu \<in> set customers"
proof -
  assume a: "Customer_objects_get customers pid c = Inr cu"
  let ?f = "filter (\<lambda>cu. \<not> cust_is_deleted cu \<and> cust_id cu = pid \<and> cust_company cu = c) customers"
  from a obtain rest where "?f = cu # rest"
    by (auto simp: Customer_objects_get_def split: list.splits)
  then have "cu \<in> set ?f" by simp
  then show ?thesis by simp
qed

lemma Customer_objects_get_cases:
  "Customer_objects_get customers pid c = Inl DoesNotExist \<or>
   (\<exists>cu. Customer_objects_get customers pid c = Inr cu)"
  by (auto simp: Customer_objects_get_def split: list.splits)

lemma outstanding_row_of_customer:
  assumes "outstanding_row_of tbl customers c (pid, ld, lc) = Some r"
  shows "customer_id r = pid \<and> (\<exists>cu. Customer_objects_get customers pid c = Inr cu \<and> customer_name r = cust_name cu)"
  using assms
  by (auto simp: outstanding_row_of_def split: option.splits if_splits sum.splits
      dest: Customer_objects_get_Inr)

text \<open>
  C10. A party id for which \<open>Customer.objects.get\<close> raises DoesNotExist (no row with
  that id in the company, or a soft-deleted one) is the customer_id of no row of the
  result of \<open>get_all_outstanding_customers\<close>, whatever ledger entries it has; the
  function has no error result.
\<close>

theorem missing_customer_omitted:
  assumes "Customer_objects_get customers pid c = Inl DoesNotExist"
  shows "pid \<notin> customer_id ` set (get_all_outstanding_customers tbl customers c)"
proof
  assume "pid \<in> customer_id ` set (get_all_outstanding_customers tbl customers c)"
  then obtain r info where r: "customer_id r = pid"
    and info: "outstanding_row_of tbl customers c info = Some r"
    by (auto simp: set_get_all_outstanding_customers)
  obtain p ld lc where "info = (p, ld, lc)" by (cases info) auto
  with info outstanding_row_of_customer[of tbl customers c p ld lc r] r
  have "\<exists>cu. Customer_objects_get customers pid c = Inr cu" by auto
  with assms show False by simp
qed

theorem missing_customer_omitted_witness:
  "Customer_objects_get [] 7 1 = Inl DoesNotExist \<and>
   0 < get_customer_outstanding sample_ledger 1 7 \<and>
   7 \<notin> customer_id ` set (get_all_outstanding_customers sample_ledger [] 1) \<and>
   get_all_outstanding_customers sample_ledger [] 1 = []"
proof -
  have a: "Customer_objects_get [] 7 1 = Inl DoesNotExist"
    by (simp add: Customer_objects_get_def)
  have b: "0 < get_customer_outstanding sample_ledger 1 7"
    by (simp add: get_customer_outstanding_def filter_party_def sample_ledger_def
        sample_entry_def order_by_date_created_desc_def qs_first_def)
  have c: "get_all_outstanding_customers sample_ledger [] 1 = []"
    by (simp add: get_all_outstanding_customers_def latest_entries_def sample_ledger_def
        sample_entry_def qs_first_def Customer_objects_get_def Let_def)
  show ?thesis using missing_customer_omitted[OF a, of sample_ledger] a b c by simp
qed

lemma party_rows_filter:
  "filter (\<lambda>e. party_id e = pid) (filter (\<lambda>e. company e = c \<and> party_type e = CustomerParty) tbl) =
     filter_party tbl c CustomerParty pid"
  by (auto simp: filter_party_def intro: filter_cong)

lemma latest_filter:
  "filter (\<lambda>e. company e = c \<and> party_type e = CustomerParty \<and> party_id e = pid \<and>
                transaction_date e = ld \<and> created_at e = lc) tbl =
     filter (\<lambda>e. transaction_date e = ld \<and> created_at e = lc) (filter_party tbl c CustomerParty pid)"
  by (auto simp: filter_party_def intro: filter_cong)

lemma latest_entries_iff:
  "(pid, ld, lc) \<in> set (latest_entries tbl c) \<longleftrightarrow>
     filter_party tbl c CustomerParty pid \<noteq> [] \<and>
     ld = Max (set (map transaction_date (filter_party tbl c CustomerParty pid))) \<and>
     lc = Max (set (map created_at (filter_party tbl c CustomerParty pid)))"
proof -
  let ?rows = "filter (\<lambda>e. company e = c \<and> party_type e = CustomerParty) tbl"
  have ne: "pid \<in> set (map party_id ?rows) \<longleftrightarrow> filter_party tbl c CustomerParty pid \<noteq> []"
    by (auto simp: filter_party_def filter_empty_conv)
  show ?thesis
    unfolding latest_entries_def Let_def party_rows_filter
    using ne by auto
qed

lemma latest_entries_distinct: "distinct (map fst (latest_entries tbl c))"
  by (simp add: latest_entries_def Let_def comp_def)

lemma qs_first_sort_key_stable:
  fixes k :: "'a \<Rightarrow> 'b::linorder"
  assumes "xs \<noteq> []"
  shows "\<exists>x\<in>set xs. qs_first (sort_key k xs) = Some x \<and> (\<forall>y\<in>set xs. k x \<le> k y) \<and>
           qs_first (filter (\<lambda>y. k y = k x) xs) = Some x"
proof -
  from qs_first_sort_key_min[OF assms, of k] obtain x where
    x: "x \<in> set xs" "qs_first (sort_key k xs) = Some x" "\<forall>y\<in>set xs. k x \<le> k y"
    by blast
  from x(2) obtain rest where eq: "sort_key k xs = x # rest"
    by (auto simp: qs_first_def split: list.splits)
  have "filter (\<lambda>y. k y = k x) xs = filter (\<lambda>y. k y = k x) (sort_key k xs)"
    by (rule sort_key_stable[symmetric])
  also have "\<dots> = x # filter (\<lambda>y. k y = k x) rest" unfolding eq by simp
  finally have "qs_first (filter (\<lambda>y. k y = k x) xs) = Some x" by (simp add: qs_first_def)
  with x show ?thesis by blast
qed

lemma latest_found_is_latest:
  assumes found: "qs_first (filter (\<lambda>e. transaction_date e = Max (set (map transaction_date es)) \<and>
                                  created_at e = Max (set (map created_at es))) es) = Some le"
  shows "qs_first (order_by_date_created_desc es) = Some le"
proof -
  let ?ld = "Max (set (map transaction_date es))" and ?lc = "Max (set (map created_at es))"
  let ?k = "\<lambda>e. (- transaction_date e, - created_at e)"
  from found obtain rest where f: "filter (\<lambda>e. transaction_date e = ?ld \<and> created_at e = ?lc) es = le # rest"
    by (auto simp: qs_first_def split: list.splits)
  then have "le \<in> set (filter (\<lambda>e. transaction_date e = ?ld \<and> created_at e = ?lc) es)" by simp
  then have le: "le \<in> set es" "transaction_date le = ?ld" "created_at le = ?lc" by auto
  then have ne: "es \<noteq> []" by auto
  from qs_first_sort_key_stable[OF ne, of ?k] obtain x where
    x: "x \<in> set es" "qs_first (sort_key ?k es) = Some x" "\<forall>y\<in>set es. ?k x \<le> ?k y"
       "qs_first (filter (\<lambda>y. ?k y = ?k x) es) = Some x"
    by blast
  have dx: "transaction_date x \<le> ?ld" using x(1) by simp
  have cx: "created_at x \<le> ?lc" using x(1) by simp
  have "?k x \<le> ?k le" using x(3) le(1) by blast
  then have "transaction_date x = ?ld \<and> created_at x = ?lc"
    using dx cx le(2,3) by auto
  then have "filter (\<lambda>y. ?k y = ?k x) es =
             filter (\<lambda>e. transaction_date e = ?ld \<and> created_at e = ?lc) es"
    by (intro filter_cong) auto
  with x(4) found have "x = le" by simp
  with x(2) show ?thesis by (simp add: order_by_date_created_desc_def)
qed

lemma outstanding_row_of_balance:
  assumes info: "(pid, ld, lc) \<in> set (latest_entries tbl c)"
    and row: "outstanding_row_of tbl customers c (pid, ld, lc) = Some r"
  shows "0 < balance r \<and> balance r = get_customer_outstanding tbl c pid"
proof -
  let ?es = "filter_party tbl c CustomerParty pid"
  from info have ld: "ld = Max (set (map transaction_date ?es))"
    and lc: "lc = Max (set (map created_at ?es))"
    by (simp_all add: latest_entries_iff)
  from row obtain le where le: "qs_first (filter (\<lambda>e. transaction_date e = ld \<and> created_at e = lc) ?es) = Some le"
    and pos: "0 < running_balance le" and bal: "balance r = running_balance le"
    by (auto simp: outstanding_row_of_def latest_filter split: option.splits if_splits sum.splits)
  from le have "qs_first (order_by_date_created_desc ?es) = Some le"
    unfolding ld lc by (rule latest_found_is_latest)
  then have "get_customer_outstanding tbl c pid = running_balance le"
    by (simp add: get_customer_outstanding_def)
  with pos bal show ?thesis by simp
qed

lemma aligned_found:
  assumes e: "e \<in> set es"
    and top: "\<forall>e'\<in>set es. transaction_date e' \<le> transaction_date e \<and> created_at e' \<le> created_at e"
  shows "\<exists>le. qs_first (filter (\<lambda>e. transaction_date e = Max (set (map transaction_date es)) \<and>
                                   created_at e = Max (set (map created_at es))) es) = Some le"
proof -
  have "Max (set (map transaction_date es)) = transaction_date e"
    using e top by (intro Max_eqI) auto
  moreover have "Max (set (map created_at es)) = created_at e"
    using e top by (intro Max_eqI) auto
  ultimately have P: "transaction_date e = Max (set (map transaction_date es)) \<and>
                      created_at e = Max (set (map created_at es))"
    by simp
  define xs where "xs = filter (\<lambda>e. transaction_date e = Max (set (map transaction_date es)) \<and>
                                   created_at e = Max (set (map created_at es))) es"
  have "e \<in> set xs" unfolding xs_def using e P by simp
  then have "\<exists>le. qs_first xs = Some le" by (cases xs) (auto simp: qs_first_def)
  then show ?thesis unfolding xs_def .
qed

lemma get_all_outstanding_customers_sound:
  assumes "r \<in> set (get_all_outstanding_customers tbl customers c)"
  shows "0 < balance r \<and> balance r = get_customer_outstanding tbl c (customer_id r) \<and>
         filter_party tbl c CustomerParty (customer_id r) \<noteq> [] \<and>
         (\<exists>cu. Customer_objects_get customers (customer_id r) c = Inr cu \<and> customer_name r = cust_name cu)"
proof -
  from assms obtain info where info: "info \<in> set (latest_entries tbl c)"
    and row: "outstanding_row_of tbl customers c info = Some r"
    by (auto simp: set_get_all_outstanding_customers)
  obtain pid ld lc where i: "info = (pid, ld, lc)" by (cases info) auto
  from outstanding_row_of_customer[OF row[unfolded i]]
  have cid: "customer_id r = pid"
    and cu: "\<exists>cu. Customer_objects_get customers pid c = Inr cu \<and> customer_name r = cust_name cu"
    by auto
  from outstanding_row_of_balance[OF info[unfolded i] row[unfolded i]]
  have "0 < balance r \<and> balance r = get_customer_outstanding tbl c pid" .
  moreover have "filter_party tbl c CustomerParty pid \<noteq> []"
    using info[unfolded i] by (simp add: latest_entries_iff)
  ultimately show ?thesis using cid cu by simp
qed

lemma get_all_outstanding_customers_complete:
  assumes e: "e \<in> set (filter_party tbl c CustomerParty pid)"
    and top: "\<forall>e'\<in>set (filter_party tbl c CustomerParty pid).
                transaction_date e' \<le> transaction_date e \<and> created_at e' \<le> created_at e"
    and pos: "0 < get_customer_outstanding tbl c pid"
    and cu: "Customer_objects_get customers pid c = Inr cu"
  shows "pid \<in> customer_id ` set (get_all_outstanding_customers tbl customers c)"
proof -
  let ?es = "filter_party tbl c CustomerParty pid"
  let ?ld = "Max (set (map transaction_date ?es))" and ?lc = "Max (set (map created_at ?es))"
  have ne: "?es \<noteq> []" using e by auto
  then have info: "(pid, ?ld, ?lc) \<in> set (latest_entries tbl c)"
    by (simp add: latest_entries_iff)
  from aligned_found[OF e top] obtain le where
    le: "qs_first (filter (\<lambda>e. transaction_date e = ?ld \<and> created_at e = ?lc) ?es) = Some le"
    by blast
  then have "qs_first (order_by_date_created_desc ?es) = Some le"
    by (rule latest_found_is_latest)
  then have "get_customer_outstanding tbl c pid = running_balance le"
    by (simp add: get_customer_outstanding_def)
  with pos have p: "0 < running_balance le" by simp
  let ?r = "\<lparr> customer_id = cust_id cu, customer_name = cust_name cu, balance = running_balance le \<rparr>"
  have "outstanding_row_of tbl customers c (pid, ?ld, ?lc) = Some ?r"
    using le p cu by (simp add: outstanding_row_of_def latest_filter)
  with info have "?r \<in> set (get_all_outstanding_customers tbl customers c)"
    unfolding set_get_all_outstanding_customers by blast
  moreover have "customer_id ?r = pid" using Customer_objects_get_Inr[OF cu] by simp
  ultimately show ?thesis by (metis imageI)
qed

lemma map_filter_ids_distinct:
  assumes "distinct (map fst infos)"
    and "\<And>info r. info \<in> set infos \<Longrightarrow> f info = Some r \<Longrightarrow> customer_id r = fst info"
  shows "distinct (map customer_id (List.map_filter f infos))"
  using assms
proof (induction infos)
  case Nil
  then show ?case by simp
next
  case (Cons i infos)
  have IH: "distinct (map customer_id (List.map_filter f infos))"
    using Cons by auto
  show ?case
  proof (cases "f i")
    case None
    then show ?thesis using IH by simp
  next
    case (Some r)
    have "customer_id r = fst i" using Cons.prems(2)[of i r] Some by simp
    moreover have "fst i \<notin> customer_id ` set (List.map_filter f infos)"
    proof
      assume "fst i \<in> customer_id ` set (List.map_filter f infos)"
      then obtain r' j where "j \<in> set infos" "f j = Some r'" "customer_id r' = fst i"
        by (auto simp: set_map_filter)
      then have "fst j = fst i" using Cons.prems(2)[of j r'] by simp
      then show False using Cons.prems(1) \<open>j \<in> set infos\<close> by (metis distinct.simps(2) imageI list.simps(9) set_map)
    qed
    ultimately show ?thesis using IH Some by simp
  qed
qed

lemma get_all_outstanding_customers_distinct:
  "distinct (map customer_id (get_all_outstanding_customers tbl customers c))"
proof -
  have d: "distinct (map customer_id (List.map_filter (outstanding_row_of tbl customers c) (latest_entries tbl c)))"
  proof (rule map_filter_ids_distinct[OF latest_entries_distinct])
    fix info r assume "outstanding_row_of tbl customers c info = Some r"
    then show "customer_id r = fst info"
      using outstanding_row_of_customer[of tbl customers c "fst info" "fst (snd info)" "snd (snd info)" r]
      by simp
  qed
  have m: "mset (map customer_id (get_all_outstanding_customers tbl customers c)) =
     mset (map customer_id (List.map_filter (outstanding_row_of tbl customers c) (latest_entries tbl c)))"
    by (simp add: get_all_outstanding_customers_def outstanding_loop_map_filter)
  show ?thesis by (rule iffD2[OF mset_eq_imp_distinct_iff[OF m] d])
qed

lemma get_all_outstanding_customers_sorted:
  "sorted_wrt (\<lambda>a b. balance b \<le> balance a) (get_all_outstanding_customers tbl customers c)"
proof -
  have "sorted (map (\<lambda>r. - balance r) (get_all_outstanding_customers tbl customers c))"
    unfolding get_all_outstanding_customers_def by (rule sorted_sort_key)
  then show ?thesis by (simp add: sorted_map)
qed

text \<open>
  C7, as the code has it. The result of \<open>get_all_outstanding_customers\<close> is sorted by
  balance, largest first, and lists a customer at most once; every row is a party with
  entries and a Customer row that \<open>Customer.objects.get\<close> finds, and its balance is the
  running_balance of the party's entry with the latest (transaction_date, created_at),
  which is positive. A party with such a Customer row and such a positive balance is
  listed when one of its entries has both the latest transaction_date and the latest
  created_at.
\<close>

theorem get_all_outstanding_customers_latest_positive:
  "sorted_wrt (\<lambda>a b. balance b \<le> balance a) (get_all_outstanding_customers tbl customers c) \<and>
   distinct (map customer_id (get_all_outstanding_customers tbl customers c)) \<and>
   (\<forall>r\<in>set (get_all_outstanding_customers tbl customers c).
      0 < balance r \<and> balance r = get_customer_outstanding tbl c (customer_id r) \<and>
      filter_party tbl c CustomerParty (customer_id r) \<noteq> [] \<and>
      (\<exists>cu. Customer_objects_get customers (customer_id r) c = Inr cu \<and>
            customer_name r = cust_name cu)) \<and>
   (\<forall>pid cu.
      (\<exists>e\<in>set (filter_party tbl c CustomerParty pid).
         \<forall>e'\<in>set (filter_party tbl c CustomerParty pid).
           transaction_date e' \<le> transaction_date e \<and> created_at e' \<le> created_at e) \<and>
      0 < get_customer_outstanding tbl c pid \<and>
      Customer_objects_get customers pid c = Inr cu \<longrightarrow>
      pid \<in> customer_id ` set (get_all_outstanding_customers tbl customers c))"
proof (intro conjI allI impI ballI)
  show "sorted_wrt (\<lambda>a b. balance b \<le> balance a) (get_all_outstanding_customers tbl customers c)"
    by (rule get_all_outstanding_customers_sorted)
  show "distinct (map customer_id (get_all_outstanding_customers tbl customers c))"
    by (rule get_all_outstanding_customers_distinct)
next
  fix r assume r: "r \<in> set (get_all_outstanding_customers tbl customers c)"
  note s = get_all_outstanding_customers_sound[OF r]
  show "0 < balance r" using s by simp
  show "balance r = get_customer_outstanding tbl c (customer_id r)" using s by simp
  show "filter_party tbl c CustomerParty (customer_id r) \<noteq> []" using s by simp
  show "\<exists>cu. Customer_objects_get customers (customer_id r) c = Inr cu \<and>
            customer_name r = cust_name cu" using s by simp
next
  fix pid cu
  assume a: "(\<exists>e\<in>set (filter_party tbl c CustomerParty pid).
         \<forall>e'\<in>set (filter_party tbl c CustomerParty pid).
           transaction_date e' \<le> transaction_date e \<and> created_at e' \<le> created_at e) \<and>
      0 < get_customer_outstanding tbl c pid \<and>
      Customer_objects_get customers pid c = Inr cu"
  then obtain e where e: "e \<in> set (filter_party tbl c CustomerParty pid)"
    "\<forall>e'\<in>set (filter_party tbl c CustomerParty pid).
           transaction_date e' \<le> transaction_date e \<and> created_at e' \<le> created_at e"
    by blast
  from a show "pid \<in> customer_id ` set (get_all_outstanding_customers tbl customers c)"
    using get_all_outstanding_customers_complete[OF e] by blast
qed

lemma sample_outstanding:
  "get_all_outstanding_customers sample_ledger sample_customers 1 =
     [\<lparr> customer_id = 8, customer_name = ''Bob'', balance = 70 \<rparr>,
      \<lparr> customer_id = 7, customer_name = ''Ann'', balance = 40 \<rparr>]"
  by code_simp

theorem get_all_outstanding_customers_latest_positive_witness:
  "get_all_outstanding_customers sample_ledger sample_customers 1 =
     [\<lparr> customer_id = 8, customer_name = ''Bob'', balance = 70 \<rparr>,
      \<lparr> customer_id = 7, customer_name = ''Ann'', balance = 40 \<rparr>] \<and>
   sorted_wrt (\<lambda>a b. balance b \<le> balance a)
     (get_all_outstanding_customers sample_ledger sample_customers 1) \<and>
   get_customer_outstanding sample_ledger 1 7 = 40 \<and>
   (\<exists>e\<in>set (filter_party sample_ledger 1 CustomerParty 7).
      \<forall>e'\<in>set (filter_party sample_ledger 1 CustomerParty 7).
        transaction_date e' \<le> transaction_date e \<and> created_at e' \<le> created_at e) \<and>
   Customer_objects_get sample_customers 7 1 = Inr sample_customer \<and>
   7 \<in> customer_id ` set (get_all_outstanding_customers sample_ledger sample_customers 1)"
proof -
  have al: "\<exists>e\<in>set (filter_party sample_ledger 1 CustomerParty 7).
      \<forall>e'\<in>set (filter_party sample_ledger 1 CustomerParty 7).
        transaction_date e' \<le> transaction_date e \<and> created_at e' \<le> created_at e"
    by (simp add: filter_party_def sample_ledger_def sample_entry_def)
  have out: "get_customer_outstanding sample_ledger 1 7 = 40"
    by (simp add: get_customer_outstanding_def filter_party_def sample_ledger_def
        sample_entry_def order_by_date_created_desc_def qs_first_def)
  have cu: "Customer_objects_get sample_customers 7 1 = Inr sample_customer"
    by (simp add: Customer_objects_get_def sample_customers_def sample_customer_def)
  note t = get_all_outstanding_customers_latest_positive[of sample_ledger sample_customers 1]
  from t have srt: "sorted_wrt (\<lambda>a b. balance b \<le> balance a)
     (get_all_outstanding_customers sample_ledger sample_customers 1)" by blast
  from t al out cu
  have inc: "7 \<in> customer_id ` set (get_all_outstanding_customers sample_ledger sample_customers 1)"
    by (metis zero_less_numeral)
  show ?thesis using sample_outstanding srt out al cu inc by blast
qed

text \<open>
  C7 as stated fails: customer 7 of \<open>sample_ledger\<close> has the latest running_balance 40,
  and with its Customer row soft-deleted it is not listed.
\<close>

theorem deleted_customer_not_listed:
  "\<not> (7 \<in> customer_id ` set (get_all_outstanding_customers sample_ledger
                               [sample_customer\<lparr>cust_is_deleted := True\<rparr>] 1)
       \<longleftrightarrow> 0 < get_customer_outstanding sample_ledger 1 7)"
proof -
  have "get_all_outstanding_customers sample_ledger [sample_customer\<lparr>cust_is_deleted := True\<rparr>] 1 = []"
    by code_simp
  moreover have "get_customer_outstanding sample_ledger 1 7 = 40"
    by (simp add: get_customer_outstanding_def filter_party_def sample_ledger_def
        sample_entry_def order_by_date_created_desc_def qs_first_def)
  ultimately show ?thesis by simp
qed

text \<open>
  The two maxima are taken separately: in \<open>drifted_ledger\<close> the entry of customer 7
  with the latest date (balance 100) is not the one created last, no entry has both
  maxima, and the customer is not listed.
\<close>

lemma backdated_customer_not_listed:
  "get_customer_outstanding drifted_ledger 1 7 = 100 \<and>
   Customer_objects_get sample_customers 7 1 = Inr sample_customer \<and>
   get_all_outstanding_customers drifted_ledger sample_customers 1 =
     [\<lparr> customer_id = 8, customer_name = ''Bob'', balance = 70 \<rparr>]"
  by code_simp

section \<open>Payment recording\<close>

lemma fifo_spec_exhausted: "remaining \<le> 0 \<Longrightarrow> fifo_spec remaining xs = []"
  by (cases xs) auto

lemma invoice_paid_snoc:
  "invoice_paid (allocs @ [a]) iid =
     invoice_paid allocs iid + (if alloc_invoice a = iid then alloc_amount a else 0)"
  by (simp add: invoice_paid_def)

lemma outstanding_pairs_snoc:
  assumes "alloc_invoice a \<notin> inv_id ` set invs"
  shows "outstanding_pairs (allocs @ [a]) invs = outstanding_pairs allocs invs"
proof -
  have "map (\<lambda>i. (inv_id i, inv_total_amount i - invoice_paid (allocs @ [a]) (inv_id i))) invs =
        map (\<lambda>i. (inv_id i, inv_total_amount i - invoice_paid allocs (inv_id i))) invs"
    using assms by (intro map_cong) (auto simp: invoice_paid_snoc)
  then show ?thesis unfolding outstanding_pairs_def by (rule arg_cong)
qed

lemma allocation_create_Inr:
  "allocation_create allocs pk iid amount = Inr allocs' \<Longrightarrow>
     allocs' = allocs @ [\<lparr> alloc_payment = pk, alloc_invoice = iid, alloc_amount = amount \<rparr>]"
  by (auto simp: allocation_create_def split: if_splits)

lemma allocate_fifo_spec:
  assumes "distinct (map inv_id invs)"
    and "allocate_fifo p invs remaining allocs = Inr allocs'"
  shows "allocs' = allocs @ fifo_allocations (pay_id p) (fifo_spec remaining (outstanding_pairs allocs invs))"
  using assms
proof (induction invs arbitrary: remaining allocs)
  case Nil
  then show ?case by (simp add: outstanding_pairs_def fifo_allocations_def)
next
  case (Cons i rest)
  let ?out = "inv_total_amount i - invoice_paid allocs (inv_id i)"
  have d: "distinct (map inv_id rest)" and notin: "inv_id i \<notin> inv_id ` set rest"
    using Cons.prems(1) by auto
  show ?case
  proof (cases "remaining \<le> 0")
    case True
    then show ?thesis using Cons.prems(2)
      by (simp add: fifo_spec_exhausted fifo_allocations_def)
  next
    case pos: False
    show ?thesis
    proof (cases "?out \<le> 0")
      case True
      then have "allocate_fifo p rest remaining allocs = Inr allocs'"
        using Cons.prems(2) pos by (simp add: Let_def)
      from Cons.IH[OF d this] True show ?thesis
        by (simp add: outstanding_pairs_def)
    next
      case False
      let ?to = "min remaining ?out"
      let ?a = "\<lparr> alloc_payment = pay_id p, alloc_invoice = inv_id i, alloc_amount = ?to \<rparr>"
      from Cons.prems(2) pos False obtain allocs1 where
        c: "allocation_create allocs (pay_id p) (inv_id i) ?to = Inr allocs1"
        and r: "allocate_fifo p rest (remaining - ?to) allocs1 = Inr allocs'"
        by (auto simp: Let_def split: sum.splits)
      have a1: "allocs1 = allocs @ [?a]" using allocation_create_Inr[OF c] .
      have same: "outstanding_pairs (allocs @ [?a]) rest = outstanding_pairs allocs rest"
        using notin by (intro outstanding_pairs_snoc) simp
      have here: "outstanding_pairs allocs (i # rest) = (inv_id i, ?out) # outstanding_pairs allocs rest"
        using False by (simp add: outstanding_pairs_def)
      from Cons.IH[OF d r] have "allocs' = (allocs @ [?a]) @
          fifo_allocations (pay_id p) (fifo_spec (remaining - ?to) (outstanding_pairs allocs rest))"
        unfolding a1 same .
      then show ?thesis
        unfolding here using pos by (simp add: fifo_allocations_def)
    qed
  qed
qed

lemma allocate_fifo_succeeds:
  assumes "distinct (map inv_id invs)"
    and "\<forall>a\<in>set allocs. alloc_payment a = pay_id p \<longrightarrow> alloc_invoice a \<notin> inv_id ` set invs"
  shows "\<exists>allocs'. allocate_fifo p invs remaining allocs = Inr allocs'"
  using assms
proof (induction invs arbitrary: remaining allocs)
  case Nil
  then show ?case by simp
next
  case (Cons i rest)
  let ?out = "inv_total_amount i - invoice_paid allocs (inv_id i)"
  let ?to = "min remaining ?out"
  let ?a = "\<lparr> alloc_payment = pay_id p, alloc_invoice = inv_id i, alloc_amount = ?to \<rparr>"
  have d: "distinct (map inv_id rest)" and notin: "inv_id i \<notin> inv_id ` set rest"
    using Cons.prems(1) by auto
  have inv: "\<forall>a\<in>set allocs. alloc_payment a = pay_id p \<longrightarrow> alloc_invoice a \<notin> inv_id ` set rest"
    using Cons.prems(2) by auto
  have c: "allocation_create allocs (pay_id p) (inv_id i) ?to = Inr (allocs @ [?a])"
    using Cons.prems(2) by (auto simp: allocation_create_def list_ex_iff)
  have inv1: "\<forall>a\<in>set (allocs @ [?a]). alloc_payment a = pay_id p \<longrightarrow> alloc_invoice a \<notin> inv_id ` set rest"
    using inv notin by auto
  from Cons.IH[OF d inv] Cons.IH[OF d inv1] c show ?case
    by (simp add: Let_def)
qed

lemma fold_max_ge_init: "(m::nat) \<le> fold max xs m"
proof (induction xs arbitrary: m)
  case Nil
  then show ?case by simp
next
  case (Cons a xs)
  have "m \<le> max a m" by simp
  also have "\<dots> \<le> fold max xs (max a m)" by (rule Cons.IH)
  finally show ?case by simp
qed

lemma fold_max_ge: "x \<in> set xs \<Longrightarrow> (x::nat) \<le> fold max xs m"
proof (induction xs arbitrary: m)
  case Nil
  then show ?case by simp
next
  case (Cons y ys)
  show ?case
  proof (cases "x = y")
    case True
    have "max y m \<le> fold max ys (max y m)" by (rule fold_max_ge_init)
    then show ?thesis using True by simp
  next
    case False
    then show ?thesis using Cons by simp
  qed
qed

lemma new_payment_pk_fresh: "q \<in> set ps \<Longrightarrow> pay_id q \<noteq> new_payment_pk ps"
proof -
  assume "q \<in> set ps"
  then have "pay_id q \<in> set (map pay_id ps)" by simp
  then have "pay_id q \<le> fold max (map pay_id ps) 0" by (rule fold_max_ge)
  then show ?thesis by (simp add: new_payment_pk_def)
qed

lemma unpaid_invoices_sent:
  assumes "\<forall>i\<in>set invs. inv_status i \<in> set STATUS_CHOICES"
  shows "unpaid_invoices invs c cust =
     sort_key inv_date (filter (\<lambda>i. \<not> inv_is_deleted i \<and> inv_company i = c \<and> inv_customer i = cust \<and>
                                    inv_status i = ''sent'') invs)"
proof -
  have "filter (\<lambda>i. \<not> inv_is_deleted i \<and> inv_company i = c \<and> inv_customer i = cust \<and>
                     (inv_status i = ''sent'' \<or> inv_status i = ''partial'')) invs =
        filter (\<lambda>i. \<not> inv_is_deleted i \<and> inv_company i = c \<and> inv_customer i = cust \<and>
                     inv_status i = ''sent'') invs"
  proof (rule filter_cong[OF refl])
    fix i assume "i \<in> set invs"
    then have "inv_status i \<in> set STATUS_CHOICES" using assms by blast
    then have "inv_status i \<noteq> ''partial''" by (auto simp: STATUS_CHOICES_def)
    then show "(\<not> inv_is_deleted i \<and> inv_company i = c \<and> inv_customer i = cust \<and>
                     (inv_status i = ''sent'' \<or> inv_status i = ''partial'')) =
               (\<not> inv_is_deleted i \<and> inv_company i = c \<and> inv_customer i = cust \<and>
                     inv_status i = ''sent'')" by simp
  qed
  then show ?thesis by (simp add: unpaid_invoices_def)
qed

lemma unpaid_invoices_distinct:
  assumes "distinct (map inv_id invs)"
  shows "distinct (map inv_id (unpaid_invoices invs c cust))"
proof -
  let ?f = "filter (\<lambda>i. \<not> inv_is_deleted i \<and> inv_company i = c \<and> inv_customer i = cust \<and>
                     (inv_status i = ''sent'' \<or> inv_status i = ''partial'')) invs"
  have d: "distinct (map inv_id ?f)" using assms by (rule distinct_map_filter)
  have m: "mset (map inv_id (unpaid_invoices invs c cust)) = mset (map inv_id ?f)"
    by (simp add: unpaid_invoices_def)
  show ?thesis by (rule iffD2[OF mset_eq_imp_distinct_iff[OF m] d])
qed

lemma outstanding_pairs_unpaid:
  assumes "\<forall>i\<in>set invs. inv_status i \<in> set STATUS_CHOICES"
  shows "outstanding_pairs allocs (unpaid_invoices invs c cust) = open_invoices_spec invs allocs c cust"
  by (simp add: unpaid_invoices_sent[OF assms] outstanding_pairs_def open_invoices_spec_def)

lemma create_entry_Inr:
  assumes "create_entry tbl now c pt pid et dr cr tdate descr ref = (tbl', Inr e)"
  shows "tbl' = tbl @ [e] \<and> entry_type e = et \<and> party_type e = pt \<and> company e = c \<and>
         party_id e = pid \<and> debit e = dr \<and> credit e = cr \<and> transaction_date e = tdate \<and>
         reference_type e = map_option fst ref \<and> reference_id e = map_option snd ref"
  using assms
  by (auto simp: create_entry_def Let_def split: if_splits option.splits prod.splits)

lemma create_entry_succeeds:
  assumes "\<not> unique_reference_entry_violated tbl (Some m) (Some k) et"
  shows "\<exists>e. create_entry tbl now c pt pid et dr cr tdate descr (Some (m, k)) = (tbl @ [e], Inr e)"
  using assms by (simp add: create_entry_def Let_def)

lemma form_valid_ledger_entry:
  assumes "form_valid db form post = Inr db'"
  shows "\<exists>e. ledger_entries db' = ledger_entries db @ [e] \<and> entry_type e = PaymentEntry \<and>
             party_type e = CustomerParty \<and> company e = pf_company form \<and>
             party_id e = cust_id (pf_customer form) \<and> debit e = 0 \<and> credit e = pf_amount form \<and>
             transaction_date e = pf_payment_date form \<and>
             reference_type e = Some PaymentModel \<and>
             reference_id e = Some (new_payment_pk (payments db))"
proof -
  let ?p = "\<lparr> pay_id = new_payment_pk (payments db), pay_company = pf_company form,
                   pay_customer = cust_id (pf_customer form), pay_number = pf_payment_number form,
                   pay_date = pf_payment_date form, pay_amount = pf_amount form \<rparr>"
  from assms obtain ledger' e where
    ce: "create_customer_payment_entry (ledger_entries db) (pf_now form)
           (pf_company form) (pf_customer form) (pf_amount form) (pf_payment_date form)
           (''Payment '' @ pf_payment_number form @ '' ('' @ pf_method_display form @ '')'')
           (Some (PaymentModel, new_payment_pk (payments db))) = (ledger', Inr e)"
    and l: "ledger_entries db' = ledger'"
    by (auto simp: form_valid_def Let_def split: if_splits sum.splits prod.splits)
  from ce have "create_entry (ledger_entries db) (pf_now form) (pf_company form) CustomerParty
        (cust_id (pf_customer form)) PaymentEntry 0 (pf_amount form) (pf_payment_date form)
        (''Payment '' @ pf_payment_number form @ '' ('' @ pf_method_display form @ '')'')
        (Some (PaymentModel, new_payment_pk (payments db))) = (ledger', Inr e)"
    by (simp add: create_customer_payment_entry_def)
  from create_entry_Inr[OF this] l show ?thesis by auto
qed

lemma form_valid_fifo:
  assumes pk: "distinct (map inv_id (invoices db))"
    and st: "\<forall>i\<in>set (invoices db). inv_status i \<in> set STATUS_CHOICES"
    and sel: "pf_invoice form = None"
    and num: "\<not> list_ex (\<lambda>q. pay_number q = pf_payment_number form) (payments db)"
    and fk: "\<forall>a\<in>set (allocations db). alloc_payment a \<in> pay_id ` set (payments db)"
    and ref: "\<not> unique_reference_entry_violated (ledger_entries db) (Some PaymentModel)
                 (Some (new_payment_pk (payments db))) PaymentEntry"
  shows "\<exists>db'. form_valid db form [] = Inr db' \<and>
           allocations db' = allocations db @
             fifo_allocations (new_payment_pk (payments db))
               (fifo_spec (pf_amount form)
                  (open_invoices_spec (invoices db) (allocations db) (pf_company form)
                     (cust_id (pf_customer form))))"
proof -
  let ?p = "\<lparr> pay_id = new_payment_pk (payments db), pay_company = pf_company form,
                   pay_customer = cust_id (pf_customer form), pay_number = pf_payment_number form,
                   pay_date = pf_payment_date form, pay_amount = pf_amount form \<rparr>"
  let ?invs = "unpaid_invoices (invoices db) (pf_company form) (cust_id (pf_customer form))"
  have d: "distinct (map inv_id ?invs)" using pk by (rule unpaid_invoices_distinct)
  have fresh: "\<forall>a\<in>set (allocations db). alloc_payment a = pay_id ?p \<longrightarrow> alloc_invoice a \<notin> inv_id ` set ?invs"
    using fk new_payment_pk_fresh[of _ "payments db"] by fastforce
  from allocate_fifo_succeeds[OF d fresh, of "pf_amount form"] obtain allocs3 where
    f: "allocate_fifo ?p ?invs (pf_amount form) (allocations db) = Inr allocs3" by blast
  from allocate_fifo_spec[OF d f] have a3: "allocs3 = allocations db @
      fifo_allocations (new_payment_pk (payments db))
        (fifo_spec (pf_amount form)
           (open_invoices_spec (invoices db) (allocations db) (pf_company form) (cust_id (pf_customer form))))"
    by (simp add: outstanding_pairs_unpaid[OF st])
  from create_entry_succeeds[OF ref] obtain e where
    ce: "create_entry (ledger_entries db) (pf_now form) (pf_company form) CustomerParty
        (cust_id (pf_customer form)) PaymentEntry 0 (pf_amount form) (pf_payment_date form)
        (''Payment '' @ pf_payment_number form @ '' ('' @ pf_method_display form @ '')'')
        (Some (PaymentModel, new_payment_pk (payments db))) = (ledger_entries db @ [e], Inr e)"
    by blast
  have "form_valid db form [] = Inr \<lparr> ledger_entries = ledger_entries db @ [e],
          invoices = update_statuses allocs3 (filter (\<lambda>a. alloc_payment a = pay_id ?p) allocs3) (invoices db),
          payments = payments db @ [?p], allocations = allocs3 \<rparr>"
    using num sel f ce
    by (simp add: form_valid_def Let_def allocate_selected_def create_customer_payment_entry_def)
  then show ?thesis using a3 by simp
qed

text \<open>
  C6. In a database whose invoices have distinct primary keys and a status among
  \<open>STATUS_CHOICES\<close>: when no invoice is selected and no manual amount is posted (and
  the payment number is unused, every allocation belongs to a stored payment and no ledger
  entry refers to the new payment yet), \<open>form_valid\<close> succeeds and the allocations it
  adds are the FIFO allocations: the customer's sent invoices with something outstanding,
  in invoice-date order, each receive min(remaining_payment, outstanding) until the
  payment or the invoices are exhausted. And whenever \<open>form_valid\<close> succeeds, with any
  selection and manual inputs, the ledger gains exactly one entry: a customer payment
  entry crediting the full payment amount, with the new Payment as its reference.
\<close>

theorem form_valid_fifo_and_ledger_entry:
  assumes "distinct (map inv_id (invoices db))"
    and "\<forall>i\<in>set (invoices db). inv_status i \<in> set STATUS_CHOICES"
  shows "(pf_invoice form = None \<and>
          \<not> list_ex (\<lambda>q. pay_number q = pf_payment_number form) (payments db) \<and>
          (\<forall>a\<in>set (allocations db). alloc_payment a \<in> pay_id ` set (payments db)) \<and>
          \<not> unique_reference_entry_violated (ledger_entries db) (Some PaymentModel)
               (Some (new_payment_pk (payments db))) PaymentEntry
          \<longrightarrow> (\<exists>db'. form_valid db form [] = Inr db' \<and>
                  allocations db' = allocations db @
                    fifo_allocations (new_payment_pk (payments db))
                      (fifo_spec (pf_amount form)
                         (open_invoices_spec (invoices db) (allocations db) (pf_company form)
                            (cust_id (pf_customer form)))))) \<and>
         (\<forall>db'. form_valid db form post = Inr db' \<longrightarrow>
            (\<exists>e. ledger_entries db' = ledger_entries db @ [e] \<and> entry_type e = PaymentEntry \<and>
                 party_type e = CustomerParty \<and> company e = pf_company form \<and>
                 party_id e = cust_id (pf_customer form) \<and> debit e = 0 \<and>
                 credit e = pf_amount form \<and> transaction_date e = pf_payment_date form \<and>
                 reference_type e = Some PaymentModel \<and>
                 reference_id e = Some (new_payment_pk (payments db))))"
proof (intro conjI impI allI)
  assume a: "pf_invoice form = None \<and>
          \<not> list_ex (\<lambda>q. pay_number q = pf_payment_number form) (payments db) \<and>
          (\<forall>a\<in>set (allocations db). alloc_payment a \<in> pay_id ` set (payments db)) \<and>
          \<not> unique_reference_entry_violated (ledger_entries db) (Some PaymentModel)
               (Some (new_payment_pk (payments db))) PaymentEntry"
  show "\<exists>db'. form_valid db form [] = Inr db' \<and>
                  allocations db' = allocations db @
                    fifo_allocations (new_payment_pk (payments db))
                      (fifo_spec (pf_amount form)
                         (open_invoices_spec (invoices db) (allocations db) (pf_company form)
                            (cust_id (pf_customer form))))"
    by (rule form_valid_fifo[OF assms conjunct1[OF a] conjunct1[OF conjunct2[OF a]]
          conjunct1[OF conjunct2[OF conjunct2[OF a]]] conjunct2[OF conjunct2[OF conjunct2[OF a]]]])
next
  fix db' assume "form_valid db form post = Inr db'"
  then show "\<exists>e. ledger_entries db' = ledger_entries db @ [e] \<and> entry_type e = PaymentEntry \<and>
                 party_type e = CustomerParty \<and> company e = pf_company form \<and>
                 party_id e = cust_id (pf_customer form) \<and> debit e = 0 \<and>
                 credit e = pf_amount form \<and> transaction_date e = pf_payment_date form \<and>
                 reference_type e = Some PaymentModel \<and>
                 reference_id e = Some (new_payment_pk (payments db))"
    by (rule form_valid_ledger_entry)
qed

lemma fifo_db_run: "form_valid fifo_db fifo_form [] = Inr fifo_db_after"
  by code_simp

theorem form_valid_fifo_and_ledger_entry_witness:
  "distinct (map inv_id (invoices fifo_db)) \<and>
   list_all (\<lambda>i. inv_status i \<in> set STATUS_CHOICES) (invoices fifo_db) \<and>
   pf_invoice fifo_form = None \<and>
   form_valid fifo_db fifo_form [] = Inr fifo_db_after \<and>
   allocations fifo_db_after = allocations fifo_db @
     fifo_allocations (new_payment_pk (payments fifo_db))
       (fifo_spec (pf_amount fifo_form)
          (open_invoices_spec (invoices fifo_db) (allocations fifo_db) (pf_company fifo_form)
             (cust_id (pf_customer fifo_form)))) \<and>
   allocations fifo_db_after =
     [\<lparr> alloc_payment = 1, alloc_invoice = 1, alloc_amount = 100 \<rparr>,
      \<lparr> alloc_payment = 1, alloc_invoice = 2, alloc_amount = 50 \<rparr>] \<and>
   (\<exists>e. ledger_entries fifo_db_after = ledger_entries fifo_db @ [e] \<and> entry_type e = PaymentEntry \<and>
        party_type e = CustomerParty \<and> party_id e = 7 \<and> debit e = 0 \<and> credit e = 150 \<and>
        reference_type e = Some PaymentModel \<and> reference_id e = Some 1)"
proof -
  have d: "distinct (map inv_id (invoices fifo_db))" by (simp add: fifo_db_def)
  have st: "\<forall>i\<in>set (invoices fifo_db). inv_status i \<in> set STATUS_CHOICES"
    by (simp add: fifo_db_def STATUS_CHOICES_def)
  have pre: "pf_invoice fifo_form = None \<and>
          \<not> list_ex (\<lambda>q. pay_number q = pf_payment_number fifo_form) (payments fifo_db) \<and>
          (\<forall>a\<in>set (allocations fifo_db). alloc_payment a \<in> pay_id ` set (payments fifo_db)) \<and>
          \<not> unique_reference_entry_violated (ledger_entries fifo_db) (Some PaymentModel)
               (Some (new_payment_pk (payments fifo_db))) PaymentEntry"
    by (simp add: fifo_db_def fifo_form_def unique_reference_entry_violated_def)
  note t = form_valid_fifo_and_ledger_entry[OF d st, of fifo_form "[]"]
  from t pre fifo_db_run have a: "allocations fifo_db_after = allocations fifo_db @
     fifo_allocations (new_payment_pk (payments fifo_db))
       (fifo_spec (pf_amount fifo_form)
          (open_invoices_spec (invoices fifo_db) (allocations fifo_db) (pf_company fifo_form)
             (cust_id (pf_customer fifo_form))))"
    by auto
  from t fifo_db_run have "\<exists>e. ledger_entries fifo_db_after = ledger_entries fifo_db @ [e] \<and>
        entry_type e = PaymentEntry \<and> party_type e = CustomerParty \<and>
        company e = pf_company fifo_form \<and> party_id e = cust_id (pf_customer fifo_form) \<and>
        debit e = 0 \<and> credit e = pf_amount fifo_form \<and>
        transaction_date e = pf_payment_date fifo_form \<and>
        reference_type e = Some PaymentModel \<and>
        reference_id e = Some (new_payment_pk (payments fifo_db))"
    by blast
  then have l: "\<exists>e. ledger_entries fifo_db_after = ledger_entries fifo_db @ [e] \<and> entry_type e = PaymentEntry \<and>
        party_type e = CustomerParty \<and> party_id e = 7 \<and> debit e = 0 \<and> credit e = 150 \<and>
        reference_type e = Some PaymentModel \<and> reference_id e = Some 1"
    by (auto simp add: fifo_form_def fifo_db_def sample_customer_def new_payment_pk_def)
  have al: "allocations fifo_db_after =
     [\<lparr> alloc_payment = 1, alloc_invoice = 1, alloc_amount = 100 \<rparr>,
      \<lparr> alloc_payment = 1, alloc_invoice = 2, alloc_amount = 50 \<rparr>]"
    by (simp add: fifo_db_after_def)
  have st': "list_all (\<lambda>i. inv_status i \<in> set STATUS_CHOICES) (invoices fifo_db)"
    using st by (simp add: list_all_iff)
  show ?thesis using d st' pre fifo_db_run a al l by blast
qed

text \<open>
  C3. The manual path stores an allocation larger than the payment: for \<open>over_db\<close>,
  \<open>over_form\<close> and \<open>over_post\<close> the payment of 50 is recorded with an allocation
  of 80, the very allocation \<open>PaymentAllocation.clean\<close> rejects with ValidationError.
  \<open>form_valid\<close> never runs \<open>clean\<close>.
\<close>

theorem manual_allocation_exceeds_payment:
  "(case form_valid over_db over_form over_post of
      Inl err \<Rightarrow> False
    | Inr db' \<Rightarrow>
        map pay_id (payments db') = [1] \<and> map pay_amount (payments db') = [50] \<and>
        allocations db' = [\<lparr> alloc_payment = 1, alloc_invoice = 5, alloc_amount = 80 \<rparr>] \<and>
        allocated_amount (allocations db') 1 = 80) \<and>
   PaymentAllocation_clean (allocations over_db)
     \<lparr> pay_id = 1, pay_company = 1, pay_customer = 7, pay_number = ''PAY-1'', pay_date = 20,
       pay_amount = 50 \<rparr> sample_invoice 80 = Inl ValidationError"
  by code_simp

end
